theory Spec2Isabelle
  imports Main
begin

section \<open>The entity store\<close>

text \<open>
  The library catalogue keeps its data in a relational store whose schema is declared in
  \<^verbatim>\<open>electron/database/migrations.ts\<close>: seven entity tables and four junction tables.
  A table is the list of its rows in insertion order. Only the columns that take part in
  keys, references and messages are kept: the identifier and the name of an entity, and
  for a book its title and the three foreign keys. The remaining columns (bio, isbn,
  timestamps, ...) are copied verbatim by every statement and never read by the
  integrity logic.
\<close>

type_synonym ident = string

record named_row =
  row_id :: ident
  row_name :: string

record book_row =
  book_id :: ident
  title :: string
  publisher_id :: ident
  series_id :: "ident option"
  category_id :: ident

record db =
  books :: "book_row list"
  authors :: "named_row list"
  publishers :: "named_row list"
  series :: "named_row list"
  genres :: "named_row list"
  topics :: "named_row list"
  categories :: "named_row list"
  book_authors :: "(ident \<times> ident) list"
  book_genres :: "(ident \<times> ident) list"
  book_topics :: "(ident \<times> ident) list"
  series_authors :: "(ident \<times> ident) list"

text \<open>
  A junction row is the pair of its two key columns: \<open>(book_id, author_id)\<close> in
  \<open>book_authors\<close>, \<open>(series_id, author_id)\<close> in \<open>series_authors\<close>, and so on.
\<close>

definition empty_db :: db where
  "empty_db = \<lparr>books = [], authors = [], publishers = [], series = [], genres = [],
     topics = [], categories = [], book_authors = [], book_genres = [], book_topics = [],
     series_authors = []\<rparr>"

text \<open>JavaScript truthiness of a string: only the empty string is falsy.\<close>

definition truthy :: "string \<Rightarrow> bool" where
  "truthy s = (s \<noteq> [])"

text \<open>\<^verbatim>\<open>Array.prototype.join\<close> on strings.\<close>

fun join :: "string \<Rightarrow> string list \<Rightarrow> string" where
  "join sep [] = []"
| "join sep [x] = x"
| "join sep (x # y # ys) = x @ sep @ join sep (y # ys)"

text \<open>The double quote character that the messages put around names.\<close>

definition dq :: string where
  "dq = [CHR 0x22]"

text \<open>The decimal text of a count, as a template literal prints it.\<close>

fun show_nat :: "nat \<Rightarrow> string" where
  "show_nat n = (if n < 10 then [char_of (48 + n)]
                 else show_nat (n div 10) @ [char_of (48 + n mod 10)])"

declare show_nat.simps [simp del]

subsection \<open>Point lookups and counts\<close>

definition ids :: "named_row list \<Rightarrow> ident set" where
  "ids rows = row_id ` set rows"

definition find_row :: "ident \<Rightarrow> named_row list \<Rightarrow> named_row option" where
  "find_row i rows = find (\<lambda>r. row_id r = i) rows"

definition find_book :: "ident \<Rightarrow> db \<Rightarrow> book_row option" where
  "find_book i d = find (\<lambda>b. book_id b = i) (books d)"

text \<open>\<^verbatim>\<open>SELECT COUNT(*) FROM book_authors WHERE author_id = ?\<close>\<close>

definition author_book_count :: "ident \<Rightarrow> db \<Rightarrow> nat" where
  "author_book_count a d = length (filter (\<lambda>ba. snd ba = a) (book_authors d))"

text \<open>\<^verbatim>\<open>SELECT COUNT(*) FROM books WHERE publisher_id = ?\<close>\<close>

definition publisher_book_count :: "ident \<Rightarrow> db \<Rightarrow> nat" where
  "publisher_book_count p d = length (filter (\<lambda>b. publisher_id b = p) (books d))"

text \<open>\<^verbatim>\<open>SELECT COUNT(*) FROM books WHERE series_id = ?\<close>\<close>

definition series_book_count :: "ident \<Rightarrow> db \<Rightarrow> nat" where
  "series_book_count s d = length (filter (\<lambda>b. series_id b = Some s) (books d))"

text \<open>\<^verbatim>\<open>SELECT COUNT(*) FROM series_authors WHERE series_id = ?\<close>\<close>

definition series_author_count :: "ident \<Rightarrow> db \<Rightarrow> nat" where
  "series_author_count s d = length (filter (\<lambda>sa. fst sa = s) (series_authors d))"

section \<open>Impact analysis of a book deletion\<close>

text \<open>
  The join of \<open>authors\<close> with \<open>book_authors\<close> restricted to one book, keeping the authors
  whose total number of book links is exactly one.
\<close>

definition orphaned_authors_query :: "ident \<Rightarrow> db \<Rightarrow> named_row list" where
  "orphaned_authors_query bid d =
     [a. a \<leftarrow> authors d, ba \<leftarrow> book_authors d,
         row_id a = snd ba \<and> fst ba = bid \<and> author_book_count (row_id a) d = 1]"

definition orphaned_publisher_query :: "book_row \<Rightarrow> db \<Rightarrow> named_row option" where
  "orphaned_publisher_query book d =
     (if publisher_book_count (publisher_id book) d = 1
      then find_row (publisher_id book) (publishers d)
      else None)"

definition orphaned_series_query :: "book_row \<Rightarrow> db \<Rightarrow> named_row option" where
  "orphaned_series_query book d =
     (case series_id book of
        None \<Rightarrow> None
      | Some s \<Rightarrow>
          if truthy s \<and> series_book_count s d = 1 then find_row s (series d) else None)"

record impact =
  orphanedAuthors :: "named_row list"
  orphanedPublisher :: "named_row option"
  orphanedSeries :: "named_row option"
  hasImpact :: bool

definition no_impact :: impact where
  "no_impact = \<lparr>orphanedAuthors = [], orphanedPublisher = None, orphanedSeries = None,
     hasImpact = False\<rparr>"

text \<open>\<^verbatim>\<open>BookRepository.checkDeleteImpact\<close>\<close>

definition checkDeleteImpact :: "ident \<Rightarrow> db \<Rightarrow> impact" where
  "checkDeleteImpact bid d =
     (case find_book bid d of
        None \<Rightarrow> no_impact
      | Some book \<Rightarrow>
          let oa = orphaned_authors_query bid d;
              op = orphaned_publisher_query book d;
              os = orphaned_series_query book d
          in \<lparr>orphanedAuthors = oa, orphanedPublisher = op, orphanedSeries = os,
               hasImpact = (length oa > 0 \<or> op \<noteq> None \<or> os \<noteq> None)\<rparr>)"

text \<open>\<^verbatim>\<open>DomainService.checkBookDeletionImpact\<close>, with its own result shape.\<close>

record deletion_impact =
  canDelete :: bool
  wouldOrphanAuthors :: "named_row list"
  wouldOrphanPublisher :: "named_row option"
  wouldOrphanSeries :: "named_row option"
  message :: "string option"

definition deletion_problems ::
  "named_row list \<Rightarrow> named_row option \<Rightarrow> named_row option \<Rightarrow> string list" where
  "deletion_problems oa op os =
     (if length oa > 0
      then [show_nat (length oa) @ '' author(s) would have no books: ''
              @ join '', '' (map row_name oa)]
      else [])
     @ (case op of None \<Rightarrow> []
        | Some p \<Rightarrow> [''Publisher '' @ dq @ row_name p @ dq @ '' would have no books''])
     @ (case os of None \<Rightarrow> []
        | Some s \<Rightarrow> [''Series '' @ dq @ row_name s @ dq @ '' would have no books''])"

definition checkBookDeletionImpact :: "ident \<Rightarrow> db \<Rightarrow> deletion_impact" where
  "checkBookDeletionImpact bid d =
     (case find_book bid d of
        None \<Rightarrow> \<lparr>canDelete = False, wouldOrphanAuthors = [], wouldOrphanPublisher = None,
                  wouldOrphanSeries = None, message = Some ''Book not found''\<rparr>
      | Some book \<Rightarrow>
          let oa = orphaned_authors_query bid d;
              op = (if publisher_book_count (publisher_id book) d = 1
                    then (case find_row (publisher_id book) (publishers d) of
                            Some p \<Rightarrow> Some p | None \<Rightarrow> None)
                    else None);
              os = (case series_id book of
                      None \<Rightarrow> None
                    | Some s \<Rightarrow>
                        if truthy s \<and> series_book_count s d = 1
                        then (case find_row s (series d) of
                                Some r \<Rightarrow> Some r | None \<Rightarrow> None)
                        else None);
              problems = deletion_problems oa op os;
              ok = (length problems = 0)
          in \<lparr>canDelete = ok, wouldOrphanAuthors = oa, wouldOrphanPublisher = op,
               wouldOrphanSeries = os,
               message = (if ok then None
                          else Some (''Cannot delete book: '' @ join ''; '' problems
                            @ ''. Please reassign or delete these entities first.''))\<rparr>)"

section \<open>Statements of the store\<close>

text \<open>
  A thrown JavaScript \<open>Error\<close> carries its message. A statement that violates a
  constraint of the schema throws the engine's own error; foreign keys are enforced
  (\<^verbatim>\<open>PRAGMA foreign_keys = ON\<close>).
\<close>

datatype error = Error string | SqliteError string

fun error_message :: "error \<Rightarrow> string" where
  "error_message (Error m) = m"
| "error_message (SqliteError m) = m"

definition fk_failed :: error where
  "fk_failed = SqliteError ''FOREIGN KEY constraint failed''"

definition unique_failed :: "string \<Rightarrow> error" where
  "unique_failed col = SqliteError (''UNIQUE constraint failed: '' @ col)"

definition bind_e :: "error + 'a \<Rightarrow> ('a \<Rightarrow> error + 'b) \<Rightarrow> error + 'b" where
  "bind_e r f = (case r of Inl e \<Rightarrow> Inl e | Inr x \<Rightarrow> f x)"

text \<open>A \<^verbatim>\<open>for\<close> loop over statements that may throw: the first error leaves the loop.\<close>

fun for_each :: "('a \<Rightarrow> db \<Rightarrow> error + db) \<Rightarrow> 'a list \<Rightarrow> db \<Rightarrow> error + db" where
  "for_each f [] d = Inr d"
| "for_each f (x # xs) d = bind_e (f x d) (for_each f xs)"

text \<open>
  \<^verbatim>\<open>transaction(fn)\<close>: when the body throws, every write of the body is rolled back
  and the error propagates; nested inside another transaction it is a savepoint with the
  same behaviour.
\<close>

definition transaction :: "(db \<Rightarrow> error + ('a \<times> db)) \<Rightarrow> db \<Rightarrow> (error + 'a) \<times> db" where
  "transaction body d =
     (case body d of Inl e \<Rightarrow> (Inl e, d) | Inr (v, d') \<Rightarrow> (Inr v, d'))"

subsection \<open>Inserts\<close>

text \<open>Tables whose only key is the primary key \<open>id\<close>: authors, publishers, series.\<close>

definition insert_row :: "string \<Rightarrow> named_row \<Rightarrow> named_row list \<Rightarrow> error + named_row list" where
  "insert_row tbl r rows =
     (if row_id r \<in> ids rows then Inl (unique_failed (tbl @ ''.id''))
      else Inr (rows @ [r]))"

text \<open>Tables whose \<open>name\<close> is \<open>UNIQUE\<close> as well: genres, topics, categories.\<close>

definition insert_unique_name_row ::
  "string \<Rightarrow> named_row \<Rightarrow> named_row list \<Rightarrow> error + named_row list" where
  "insert_unique_name_row tbl r rows =
     (if row_id r \<in> ids rows then Inl (unique_failed (tbl @ ''.id''))
      else if row_name r \<in> row_name ` set rows then Inl (unique_failed (tbl @ ''.name''))
      else Inr (rows @ [r]))"

definition sql_insert_author :: "named_row \<Rightarrow> db \<Rightarrow> error + db" where
  "sql_insert_author r d =
     bind_e (insert_row ''authors'' r (authors d)) (\<lambda>rows. Inr (d\<lparr>authors := rows\<rparr>))"

definition sql_insert_publisher :: "named_row \<Rightarrow> db \<Rightarrow> error + db" where
  "sql_insert_publisher r d =
     bind_e (insert_row ''publishers'' r (publishers d)) (\<lambda>rows. Inr (d\<lparr>publishers := rows\<rparr>))"

definition sql_insert_series :: "named_row \<Rightarrow> db \<Rightarrow> error + db" where
  "sql_insert_series r d =
     bind_e (insert_row ''series'' r (series d)) (\<lambda>rows. Inr (d\<lparr>series := rows\<rparr>))"

definition sql_insert_genre :: "named_row \<Rightarrow> db \<Rightarrow> error + db" where
  "sql_insert_genre r d =
     bind_e (insert_unique_name_row ''genres'' r (genres d)) (\<lambda>rows. Inr (d\<lparr>genres := rows\<rparr>))"

definition sql_insert_topic :: "named_row \<Rightarrow> db \<Rightarrow> error + db" where
  "sql_insert_topic r d =
     bind_e (insert_unique_name_row ''topics'' r (topics d)) (\<lambda>rows. Inr (d\<lparr>topics := rows\<rparr>))"

definition sql_insert_category :: "named_row \<Rightarrow> db \<Rightarrow> error + db" where
  "sql_insert_category r d =
     bind_e (insert_unique_name_row ''categories'' r (categories d))
       (\<lambda>rows. Inr (d\<lparr>categories := rows\<rparr>))"

text \<open>
  The foreign keys of a book row: the publisher and the category must exist, and the
  series when the column is not \<open>NULL\<close>.
\<close>

definition book_fks_ok :: "ident \<Rightarrow> ident option \<Rightarrow> ident \<Rightarrow> db \<Rightarrow> bool" where
  "book_fks_ok p s c d =
     (p \<in> ids (publishers d) \<and> c \<in> ids (categories d)
      \<and> (case s of None \<Rightarrow> True | Some x \<Rightarrow> x \<in> ids (series d)))"

definition sql_insert_book :: "book_row \<Rightarrow> db \<Rightarrow> error + db" where
  "sql_insert_book b d =
     (if book_id b \<in> book_id ` set (books d) then Inl (unique_failed ''books.id'')
      else if \<not> book_fks_ok (publisher_id b) (series_id b) (category_id b) d then Inl fk_failed
      else Inr (d\<lparr>books := books d @ [b]\<rparr>))"

text \<open>A junction insert: the pair is the primary key, and both columns are foreign keys.\<close>

definition insert_link ::
  "string \<Rightarrow> ident \<times> ident \<Rightarrow> ident set \<Rightarrow> ident set \<Rightarrow> (ident \<times> ident) list
   \<Rightarrow> error + (ident \<times> ident) list" where
  "insert_link tbl l lefts rights rows =
     (if l \<in> set rows then Inl (unique_failed tbl)
      else if fst l \<notin> lefts \<or> snd l \<notin> rights then Inl fk_failed
      else Inr (rows @ [l]))"

definition sql_insert_book_author :: "ident \<Rightarrow> ident \<Rightarrow> db \<Rightarrow> error + db" where
  "sql_insert_book_author b a d =
     bind_e (insert_link ''book_authors.book_id, book_authors.author_id'' (b, a)
               (book_id ` set (books d)) (ids (authors d)) (book_authors d))
       (\<lambda>rows. Inr (d\<lparr>book_authors := rows\<rparr>))"

definition sql_insert_book_genre :: "ident \<Rightarrow> ident \<Rightarrow> db \<Rightarrow> error + db" where
  "sql_insert_book_genre b g d =
     bind_e (insert_link ''book_genres.book_id, book_genres.genre_id'' (b, g)
               (book_id ` set (books d)) (ids (genres d)) (book_genres d))
       (\<lambda>rows. Inr (d\<lparr>book_genres := rows\<rparr>))"

definition sql_insert_book_topic :: "ident \<Rightarrow> ident \<Rightarrow> db \<Rightarrow> error + db" where
  "sql_insert_book_topic b t d =
     bind_e (insert_link ''book_topics.book_id, book_topics.topic_id'' (b, t)
               (book_id ` set (books d)) (ids (topics d)) (book_topics d))
       (\<lambda>rows. Inr (d\<lparr>book_topics := rows\<rparr>))"

definition sql_insert_series_author :: "ident \<Rightarrow> ident \<Rightarrow> db \<Rightarrow> error + db" where
  "sql_insert_series_author s a d =
     bind_e (insert_link ''series_authors.series_id, series_authors.author_id'' (s, a)
               (ids (series d)) (ids (authors d)) (series_authors d))
       (\<lambda>rows. Inr (d\<lparr>series_authors := rows\<rparr>))"

subsection \<open>Deletes and the update of a book\<close>

definition sql_delete_book_authors :: "ident \<Rightarrow> db \<Rightarrow> db" where
  "sql_delete_book_authors b d = d\<lparr>book_authors := filter (\<lambda>l. fst l \<noteq> b) (book_authors d)\<rparr>"

definition sql_delete_book_genres :: "ident \<Rightarrow> db \<Rightarrow> db" where
  "sql_delete_book_genres b d = d\<lparr>book_genres := filter (\<lambda>l. fst l \<noteq> b) (book_genres d)\<rparr>"

definition sql_delete_book_topics :: "ident \<Rightarrow> db \<Rightarrow> db" where
  "sql_delete_book_topics b d = d\<lparr>book_topics := filter (\<lambda>l. fst l \<noteq> b) (book_topics d)\<rparr>"

text \<open>\<^verbatim>\<open>DELETE FROM series_authors WHERE author_id = ?\<close>\<close>

definition sql_delete_series_authors_of_author :: "ident \<Rightarrow> db \<Rightarrow> db" where
  "sql_delete_series_authors_of_author a d =
     d\<lparr>series_authors := filter (\<lambda>l. snd l \<noteq> a) (series_authors d)\<rparr>"

text \<open>\<^verbatim>\<open>DELETE FROM series_authors WHERE series_id = ?\<close>\<close>

definition sql_delete_series_authors_of_series :: "ident \<Rightarrow> db \<Rightarrow> db" where
  "sql_delete_series_authors_of_series s d =
     d\<lparr>series_authors := filter (\<lambda>l. fst l \<noteq> s) (series_authors d)\<rparr>"

text \<open>
  Deleting a book row cascades to its rows in the three book junctions. Each row delete
  returns the number of rows it removed (\<open>changes\<close>) with the new state.
\<close>

definition sql_delete_book :: "ident \<Rightarrow> db \<Rightarrow> nat \<times> db" where
  "sql_delete_book b d =
     (if b \<in> book_id ` set (books d)
      then (length (filter (\<lambda>r. book_id r = b) (books d)),
            d\<lparr>books := filter (\<lambda>r. book_id r \<noteq> b) (books d),
              book_authors := filter (\<lambda>l. fst l \<noteq> b) (book_authors d),
              book_genres := filter (\<lambda>l. fst l \<noteq> b) (book_genres d),
              book_topics := filter (\<lambda>l. fst l \<noteq> b) (book_topics d)\<rparr>)
      else (0, d))"

text \<open>Deleting an author row cascades to \<open>book_authors\<close> and \<open>series_authors\<close>.\<close>

definition sql_delete_author :: "ident \<Rightarrow> db \<Rightarrow> nat \<times> db" where
  "sql_delete_author a d =
     (if a \<in> ids (authors d)
      then (length (filter (\<lambda>r. row_id r = a) (authors d)),
            d\<lparr>authors := filter (\<lambda>r. row_id r \<noteq> a) (authors d),
              book_authors := filter (\<lambda>l. snd l \<noteq> a) (book_authors d),
              series_authors := filter (\<lambda>l. snd l \<noteq> a) (series_authors d)\<rparr>)
      else (0, d))"

text \<open>Deleting a publisher row is restricted while a book references it.\<close>

definition sql_delete_publisher :: "ident \<Rightarrow> db \<Rightarrow> error + (nat \<times> db)" where
  "sql_delete_publisher p d =
     (if p \<in> ids (publishers d)
      then (if \<exists>b \<in> set (books d). publisher_id b = p then Inl fk_failed
            else Inr (length (filter (\<lambda>r. row_id r = p) (publishers d)),
                      d\<lparr>publishers := filter (\<lambda>r. row_id r \<noteq> p) (publishers d)\<rparr>))
      else Inr (0, d))"

text \<open>
  Deleting a series row sets the \<open>series_id\<close> of its books to \<open>NULL\<close> and cascades to
  \<open>series_authors\<close>.
\<close>

definition sql_delete_series :: "ident \<Rightarrow> db \<Rightarrow> nat \<times> db" where
  "sql_delete_series s d =
     (if s \<in> ids (series d)
      then (length (filter (\<lambda>r. row_id r = s) (series d)),
            d\<lparr>series := filter (\<lambda>r. row_id r \<noteq> s) (series d),
              books := map (\<lambda>b. if series_id b = Some s then b\<lparr>series_id := None\<rparr> else b)
                         (books d),
              series_authors := filter (\<lambda>l. fst l \<noteq> s) (series_authors d)\<rparr>)
      else (0, d))"


section \<open>The book repository\<close>

definition nl :: string where
  "nl = [CHR 0x0A]"

text \<open>The bullet of the blocking message, as its UTF-8 bytes.\<close>

definition bullet :: string where
  "bullet = [CHR 0xE2, CHR 0x80, CHR 0xA2]"

definition book_not_found :: "ident \<Rightarrow> error" where
  "book_not_found b = Error (''Book with id '' @ b @ '' not found'')"

definition blocked_problems ::
  "named_row list \<Rightarrow> named_row option \<Rightarrow> named_row option \<Rightarrow> string list" where
  "blocked_problems oa op os =
     (if length oa > 0
      then [''Author(s) '' @ dq @ join '', '' (map row_name oa) @ dq @ '' would have no books'']
      else [])
     @ (case op of None \<Rightarrow> []
        | Some p \<Rightarrow> [''Publisher '' @ dq @ row_name p @ dq @ '' would have no books''])
     @ (case os of None \<Rightarrow> []
        | Some s \<Rightarrow> [''Series '' @ dq @ row_name s @ dq @ '' would have no books''])"

definition blocked_by_invariant ::
  "named_row list \<Rightarrow> named_row option \<Rightarrow> named_row option \<Rightarrow> error" where
  "blocked_by_invariant oa op os =
     Error (''Cannot delete this book because it would violate business rules:'' @ nl
              @ bullet @ '' '' @ join (nl @ bullet @ '' '') (blocked_problems oa op os)
              @ nl @ nl
              @ ''Please reassign these entities to other books first, or delete the book ''
              @ ''with the '' @ dq @ ''Also delete orphaned entities'' @ dq @ '' option.'')"

text \<open>
  The cascade shared by the delete and the update of a book: each orphaned author goes
  with its series links, then the publisher, then the series with its author links.
\<close>

definition delete_orphan_author :: "named_row \<Rightarrow> db \<Rightarrow> db" where
  "delete_orphan_author a d =
     snd (sql_delete_author (row_id a) (sql_delete_series_authors_of_author (row_id a) d))"

definition delete_orphan_series :: "named_row \<Rightarrow> db \<Rightarrow> db" where
  "delete_orphan_series s d =
     snd (sql_delete_series (row_id s) (sql_delete_series_authors_of_series (row_id s) d))"

definition cascade_orphans ::
  "named_row list \<Rightarrow> named_row option \<Rightarrow> named_row option \<Rightarrow> db \<Rightarrow> error + db" where
  "cascade_orphans oa op os d =
     (let d1 = fold delete_orphan_author oa d
      in bind_e (case op of None \<Rightarrow> Inr d1
                 | Some p \<Rightarrow> bind_e (sql_delete_publisher (row_id p) d1) (\<lambda>r. Inr (snd r)))
           (\<lambda>d2. Inr (case os of None \<Rightarrow> d2 | Some s \<Rightarrow> delete_orphan_series s d2)))"

text \<open>The body of \<^verbatim>\<open>BookRepository.delete\<close>, run inside one transaction.\<close>

definition delete_book_body :: "ident \<Rightarrow> bool \<Rightarrow> db \<Rightarrow> error + (unit \<times> db)" where
  "delete_book_body bid cleanupOrphans d =
     (case find_book bid d of
        None \<Rightarrow> Inl (book_not_found bid)
      | Some book \<Rightarrow>
          let oa = orphaned_authors_query bid d;
              op = orphaned_publisher_query book d;
              os = orphaned_series_query book d
          in if \<not> cleanupOrphans \<and> (length oa > 0 \<or> op \<noteq> None \<or> os \<noteq> None)
             then Inl (blocked_by_invariant oa op os)
             else
               let d1 = sql_delete_book_authors bid d;
                   d2 = sql_delete_book_genres bid d1;
                   d3 = sql_delete_book_topics bid d2;
                   d4 = snd (sql_delete_book bid d3)
               in if cleanupOrphans
                  then bind_e (cascade_orphans oa op os d4) (\<lambda>d5. Inr ((), d5))
                  else Inr ((), d4))"

definition deleteBook :: "ident \<Rightarrow> bool \<Rightarrow> db \<Rightarrow> (error + unit) \<times> db" where
  "deleteBook bid cleanupOrphans = transaction (delete_book_body bid cleanupOrphans)"

text \<open>The fields of \<^verbatim>\<open>BookInput\<close> that reach keys and references.\<close>

record book_input =
  inputId :: "ident option"
  inputTitle :: string
  publisherId :: ident
  seriesId :: "ident option"
  categoryId :: ident
  authorIds :: "ident list"
  genreIds :: "ident list"
  topicIds :: "ident list"

text \<open>\<^verbatim>\<open>input.seriesId || null\<close>\<close>

definition series_or_null :: "ident option \<Rightarrow> ident option" where
  "series_or_null s = (case s of None \<Rightarrow> None | Some x \<Rightarrow> if truthy x then Some x else None)"

definition current_author_ids :: "ident \<Rightarrow> db \<Rightarrow> ident list" where
  "current_author_ids bid d = map snd (filter (\<lambda>l. fst l = bid) (book_authors d))"

definition removed_author_ids :: "ident \<Rightarrow> book_input \<Rightarrow> db \<Rightarrow> ident list" where
  "removed_author_ids bid input d =
     filter (\<lambda>a. a \<notin> set (authorIds input)) (current_author_ids bid d)"

definition orphaned_if_sole_book :: "db \<Rightarrow> ident \<Rightarrow> named_row list" where
  "orphaned_if_sole_book d a =
     (if author_book_count a d = 1
      then (case find_row a (authors d) of Some r \<Rightarrow> [r] | None \<Rightarrow> [])
      else [])"

text \<open>\<^verbatim>\<open>BookRepository.checkUpdateImpact\<close>\<close>

definition checkUpdateImpact :: "ident \<Rightarrow> book_input \<Rightarrow> db \<Rightarrow> impact" where
  "checkUpdateImpact bid input d =
     (case find_book bid d of
        None \<Rightarrow> no_impact
      | Some book \<Rightarrow>
          let oa = concat (map (orphaned_if_sole_book d) (removed_author_ids bid input d));
              op = (if truthy (publisherId input) \<and> publisherId input \<noteq> publisher_id book
                    then (if publisher_book_count (publisher_id book) d = 1
                          then find_row (publisher_id book) (publishers d)
                          else None)
                    else None);
              os = (case series_id book of
                      None \<Rightarrow> None
                    | Some s \<Rightarrow>
                        if truthy s \<and> seriesId input \<noteq> Some s
                        then (if series_book_count s d = 1 then find_row s (series d)
                              else None)
                        else None)
          in \<lparr>orphanedAuthors = oa, orphanedPublisher = op, orphanedSeries = os,
               hasImpact = (length oa > 0 \<or> op \<noteq> None \<or> os \<noteq> None)\<rparr>)"




section \<open>Deleting an author, a publisher, a series\<close>

text \<open>
  \<^verbatim>\<open>AuthorRepository.delete\<close> and \<^verbatim>\<open>PublisherRepository.delete\<close> run their statements
  outside any transaction: what was written before a throw stays written.
\<close>

definition deleteAuthor :: "ident \<Rightarrow> db \<Rightarrow> (error + unit) \<times> db" where
  "deleteAuthor a d =
     (let bookCount = author_book_count a d
      in if bookCount > 0
         then (Inl (Error (''Cannot delete author: they have '' @ show_nat bookCount
                 @ '' book(s) associated. Remove the author from all books first, ''
                 @ ''or delete those books.'')), d)
         else
           let d1 = sql_delete_series_authors_of_author a d;
               (changes, d2) = sql_delete_author a d1
           in if changes = 0
              then (Inl (Error (''Author with id '' @ a @ '' not found'')), d2)
              else (Inr (), d2))"




section \<open>The domain service\<close>

record author_delete_impact =
  authorHasImpact :: bool
  seriesWithNoAuthors :: "named_row list"

text \<open>\<^verbatim>\<open>DomainService.checkAuthorDeleteImpact\<close>: the series whose only author this is.\<close>

definition checkAuthorDeleteImpact :: "ident \<Rightarrow> db \<Rightarrow> author_delete_impact" where
  "checkAuthorDeleteImpact a d =
     (let rows = [s. s \<leftarrow> series d, sa \<leftarrow> series_authors d,
                     row_id s = fst sa \<and> snd sa = a \<and> series_author_count (row_id s) d = 1]
      in \<lparr>authorHasImpact = (length rows > 0), seriesWithNoAuthors = rows\<rparr>)"

text \<open>The orphan scans: a left join whose right side found no row.\<close>

definition orphan_authors :: "db \<Rightarrow> named_row list" where
  "orphan_authors d =
     filter (\<lambda>a. \<not> (\<exists>l \<in> set (book_authors d). snd l = row_id a)) (authors d)"

definition orphan_publishers :: "db \<Rightarrow> named_row list" where
  "orphan_publishers d =
     filter (\<lambda>p. \<not> (\<exists>b \<in> set (books d). publisher_id b = row_id p)) (publishers d)"

definition orphan_series :: "db \<Rightarrow> named_row list" where
  "orphan_series d =
     filter (\<lambda>s. \<not> (\<exists>b \<in> set (books d). series_id b = Some (row_id s))) (series d)"

definition series_no_authors :: "db \<Rightarrow> named_row list" where
  "series_no_authors d =
     filter (\<lambda>s. \<not> (\<exists>l \<in> set (series_authors d). fst l = row_id s)) (series d)"

definition books_no_publisher :: "db \<Rightarrow> book_row list" where
  "books_no_publisher d =
     filter (\<lambda>b. \<not> (\<exists>p \<in> set (publishers d). publisher_id b = row_id p)) (books d)"

definition books_no_category :: "db \<Rightarrow> book_row list" where
  "books_no_category d =
     filter (\<lambda>b. \<not> (\<exists>c \<in> set (categories d). category_id b = row_id c)) (books d)"

datatype violation_type =
  orphan_author | orphan_publisher | orphan_series_v | series_no_authors_v
  | book_no_publisher | book_no_category

record violation =
  vtype :: violation_type
  entityType :: string
  entityId :: ident
  entityName :: string
  vmessage :: string

record integrity_summary =
  orphanAuthors :: nat
  orphanPublishers :: nat
  orphanSeries :: nat
  seriesWithNoAuthorsCount :: nat
  booksWithNoPublisher :: nat
  booksWithNoCategory :: nat

record integrity_result =
  isValid :: bool
  violations :: "violation list"
  summary :: integrity_summary

definition named_violation ::
  "violation_type \<Rightarrow> string \<Rightarrow> string \<Rightarrow> named_row \<Rightarrow> violation" where
  "named_violation t kind rule r =
     \<lparr>vtype = t, entityType = kind, entityId = row_id r, entityName = row_name r,
      vmessage = kind @ '' '' @ dq @ row_name r @ dq @ rule\<rparr>"

definition book_violation :: "violation_type \<Rightarrow> string \<Rightarrow> book_row \<Rightarrow> violation" where
  "book_violation t what b =
     \<lparr>vtype = t, entityType = ''Book'', entityId = book_id b, entityName = title b,
      vmessage = ''Book '' @ dq @ title b @ dq @ '' has no valid '' @ what\<rparr>"

text \<open>\<^verbatim>\<open>DomainService.integrityCheck\<close>\<close>

definition integrityCheck :: "db \<Rightarrow> integrity_result" where
  "integrityCheck d =
     (let oa = orphan_authors d; op = orphan_publishers d; os = orphan_series d;
          sn = series_no_authors d; bp = books_no_publisher d; bc = books_no_category d;
          vs = map (named_violation orphan_author ''Author''
                 '' has no books (violates: each author must have at least 1 book)'') oa
             @ map (named_violation orphan_publisher ''Publisher''
                 '' has no books (violates: each publisher must have at least 1 book)'') op
             @ map (named_violation orphan_series_v ''Series''
                 '' has no books (violates: each series must have at least 1 book)'') os
             @ map (named_violation series_no_authors_v ''Series''
                 '' has no authors (violates: each series must have at least 1 author)'') sn
             @ map (book_violation book_no_publisher ''publisher'') bp
             @ map (book_violation book_no_category ''category'') bc
      in \<lparr>isValid = (length vs = 0), violations = vs,
          summary = \<lparr>orphanAuthors = length oa, orphanPublishers = length op,
            orphanSeries = length os, seriesWithNoAuthorsCount = length sn,
            booksWithNoPublisher = length bp, booksWithNoCategory = length bc\<rparr>\<rparr>)"

record cleanup_result =
  deletedAuthors :: "string list"
  deletedPublishers :: "string list"
  deletedSeries :: "string list"

text \<open>
  The body of \<^verbatim>\<open>DomainService.cleanupOrphans\<close>: each scan runs on the state the
  previous deletions left.
\<close>

definition cleanup_orphans_body :: "db \<Rightarrow> error + (cleanup_result \<times> db)" where
  "cleanup_orphans_body d =
     (let oa = orphan_authors d;
          d1 = fold delete_orphan_author oa d;
          op = orphan_publishers d1
      in bind_e (for_each (\<lambda>p x. bind_e (sql_delete_publisher (row_id p) x) (\<lambda>r. Inr (snd r)))
                   op d1)
           (\<lambda>d2. let os = orphan_series d2;
                      d3 = fold delete_orphan_series os d2
                  in Inr (\<lparr>deletedAuthors = map row_name oa,
                            deletedPublishers = map row_name op,
                            deletedSeries = map row_name os\<rparr>, d3)))"

definition cleanupOrphans :: "db \<Rightarrow> (error + cleanup_result) \<times> db" where
  "cleanupOrphans = transaction cleanup_orphans_body"

section \<open>Constraints of the schema\<close>

text \<open>
  What the engine guarantees of every stored state and the integrity logic relies on:
  primary keys are unique, every foreign key resolves, and (since both writers of
  \<open>books.series_id\<close> store \<^verbatim>\<open>input.seriesId || null\<close>) no book carries the empty
  string as its series.
\<close>

definition links_resolve :: "(ident \<times> ident) list \<Rightarrow> ident set \<Rightarrow> ident set \<Rightarrow> bool" where
  "links_resolve rows lefts rights = (\<forall>l \<in> set rows. fst l \<in> lefts \<and> snd l \<in> rights)"

definition wf_db :: "db \<Rightarrow> bool" where
  "wf_db d =
     (distinct (map book_id (books d)) \<and> distinct (map row_id (authors d))
      \<and> distinct (map row_id (publishers d)) \<and> distinct (map row_id (series d))
      \<and> distinct (map row_id (genres d)) \<and> distinct (map row_id (topics d))
      \<and> distinct (map row_id (categories d))
      \<and> distinct (book_authors d) \<and> distinct (book_genres d) \<and> distinct (book_topics d)
      \<and> distinct (series_authors d)
      \<and> (\<forall>b \<in> set (books d).
            book_fks_ok (publisher_id b) (series_id b) (category_id b) d
            \<and> series_id b \<noteq> Some [])
      \<and> links_resolve (book_authors d) (book_id ` set (books d)) (ids (authors d))
      \<and> links_resolve (book_genres d) (book_id ` set (books d)) (ids (genres d))
      \<and> links_resolve (book_topics d) (book_id ` set (books d)) (ids (topics d))
      \<and> links_resolve (series_authors d) (ids (series d)) (ids (authors d)))"

section \<open>Stores with rows removed\<close>

text \<open>
  The store without a book and its links, and without sets of authors, publishers or
  series, as the cascading deletes of the schema leave it. The theorems below state the
  effect of the deleting operations in these terms.
\<close>

definition without_book :: "ident \<Rightarrow> db \<Rightarrow> db" where
  "without_book b d =
     d\<lparr>books := filter (\<lambda>r. book_id r \<noteq> b) (books d),
       book_authors := filter (\<lambda>l. fst l \<noteq> b) (book_authors d),
       book_genres := filter (\<lambda>l. fst l \<noteq> b) (book_genres d),
       book_topics := filter (\<lambda>l. fst l \<noteq> b) (book_topics d)\<rparr>"

definition without_authors :: "ident set \<Rightarrow> db \<Rightarrow> db" where
  "without_authors A d =
     d\<lparr>authors := filter (\<lambda>r. row_id r \<notin> A) (authors d),
       book_authors := filter (\<lambda>l. snd l \<notin> A) (book_authors d),
       series_authors := filter (\<lambda>l. snd l \<notin> A) (series_authors d)\<rparr>"

definition without_publishers :: "ident set \<Rightarrow> db \<Rightarrow> db" where
  "without_publishers P d = d\<lparr>publishers := filter (\<lambda>r. row_id r \<notin> P) (publishers d)\<rparr>"

definition without_series :: "ident set \<Rightarrow> db \<Rightarrow> db" where
  "without_series S d =
     d\<lparr>series := filter (\<lambda>r. row_id r \<notin> S) (series d),
       books := map (\<lambda>b. if series_id b \<in> Some ` S then b\<lparr>series_id := None\<rparr> else b)
                  (books d),
       series_authors := filter (\<lambda>l. fst l \<notin> S) (series_authors d)\<rparr>"

text \<open>The store once every orphan author, publisher and series is removed.\<close>

definition swept :: "db \<Rightarrow> db" where
  "swept d =
     without_series (ids (orphan_series d))
       (without_publishers (ids (orphan_publishers d))
          (without_authors (ids (orphan_authors d)) d))"

text \<open>
  The store with the row of book \<open>b\<close> rewritten from an input and its author, genre and
  topic links replaced by those of the input, as the statements of an update leave it
  before any cascade.
\<close>

definition with_book :: "ident \<Rightarrow> book_input \<Rightarrow> db \<Rightarrow> db" where
  "with_book b inp d =
     d\<lparr>books := map (\<lambda>r. if book_id r = b
                         then r\<lparr>title := inputTitle inp, publisher_id := publisherId inp,
                                series_id := series_or_null (seriesId inp),
                                category_id := categoryId inp\<rparr>
                         else r) (books d),
       book_authors := filter (\<lambda>l. fst l \<noteq> b) (book_authors d)
                         @ map (Pair b) (authorIds inp),
       book_genres := filter (\<lambda>l. fst l \<noteq> b) (book_genres d)
                        @ map (Pair b) (genreIds inp),
       book_topics := filter (\<lambda>l. fst l \<noteq> b) (book_topics d)
                        @ map (Pair b) (topicIds inp)\<rparr>"

section \<open>Example states\<close>

text \<open>
  Book X is the only book of author A1, of publisher P1 and of series S1.
\<close>

definition sole_book_db :: db where
  "sole_book_db =
     \<lparr>books = [\<lparr>book_id = ''X'', title = ''X'', publisher_id = ''P1'',
                 series_id = Some ''S1'', category_id = ''C1''\<rparr>],
      authors = [\<lparr>row_id = ''A1'', row_name = ''A1''\<rparr>],
      publishers = [\<lparr>row_id = ''P1'', row_name = ''P1''\<rparr>],
      series = [\<lparr>row_id = ''S1'', row_name = ''S1''\<rparr>],
      genres = [\<lparr>row_id = ''G1'', row_name = ''Fiction''\<rparr>],
      topics = [],
      categories = [\<lparr>row_id = ''C1'', row_name = ''General''\<rparr>],
      book_authors = [(''X'', ''A1'')],
      book_genres = [(''X'', ''G1'')],
      book_topics = [],
      series_authors = [(''S1'', ''A1'')]\<rparr>"

text \<open>
  Books X and Y share publisher P1. X is written by A1 and A2, Y by A2 alone; Y belongs
  to series S1, whose only author is A1.
\<close>

definition shared_db :: db where
  "shared_db =
     \<lparr>books = [\<lparr>book_id = ''X'', title = ''X'', publisher_id = ''P1'',
                 series_id = None, category_id = ''C1''\<rparr>,
               \<lparr>book_id = ''Y'', title = ''Y'', publisher_id = ''P1'',
                 series_id = Some ''S1'', category_id = ''C1''\<rparr>],
      authors = [\<lparr>row_id = ''A1'', row_name = ''A1''\<rparr>, \<lparr>row_id = ''A2'', row_name = ''A2''\<rparr>],
      publishers = [\<lparr>row_id = ''P1'', row_name = ''P1''\<rparr>],
      series = [\<lparr>row_id = ''S1'', row_name = ''S1''\<rparr>],
      genres = [],
      topics = [],
      categories = [\<lparr>row_id = ''C1'', row_name = ''General''\<rparr>],
      book_authors = [(''X'', ''A1''), (''X'', ''A2''), (''Y'', ''A2'')],
      book_genres = [],
      book_topics = [],
      series_authors = [(''S1'', ''A1'')]\<rparr>"


text \<open>
  Author A1 has no book and is the only author of series S1, which holds book Y by A2.
\<close>

definition bookless_author_db :: db where
  "bookless_author_db =
     \<lparr>books = [\<lparr>book_id = ''Y'', title = ''Y'', publisher_id = ''P1'',
                 series_id = Some ''S1'', category_id = ''C1''\<rparr>],
      authors = [\<lparr>row_id = ''A1'', row_name = ''A1''\<rparr>, \<lparr>row_id = ''A2'', row_name = ''A2''\<rparr>],
      publishers = [\<lparr>row_id = ''P1'', row_name = ''P1''\<rparr>],
      series = [\<lparr>row_id = ''S1'', row_name = ''S1''\<rparr>],
      genres = [],
      topics = [],
      categories = [\<lparr>row_id = ''C1'', row_name = ''General''\<rparr>],
      book_authors = [(''Y'', ''A2'')],
      book_genres = [],
      book_topics = [],
      series_authors = [(''S1'', ''A1'')]\<rparr>"

section \<open>Creating entities\<close>

text \<open>
  Every \<open>create\<close> stores the row under \<^verbatim>\<open>input.id || uuidv4()\<close>. The generator is
  outside the repository; the identifier it would return is a parameter here.
\<close>

definition id_or_uuid :: "ident option \<Rightarrow> ident \<Rightarrow> ident" where
  "id_or_uuid i uuid = (case i of None \<Rightarrow> uuid | Some x \<Rightarrow> if truthy x then x else uuid)"

definition create_author :: "ident \<Rightarrow> ident option \<Rightarrow> string \<Rightarrow> db \<Rightarrow> error + db" where
  "create_author uuid i n d = sql_insert_author \<lparr>row_id = id_or_uuid i uuid, row_name = n\<rparr> d"

definition create_publisher :: "ident \<Rightarrow> ident option \<Rightarrow> string \<Rightarrow> db \<Rightarrow> error + db" where
  "create_publisher uuid i n d =
     sql_insert_publisher \<lparr>row_id = id_or_uuid i uuid, row_name = n\<rparr> d"

definition create_genre :: "ident \<Rightarrow> ident option \<Rightarrow> string \<Rightarrow> db \<Rightarrow> error + db" where
  "create_genre uuid i n d = sql_insert_genre \<lparr>row_id = id_or_uuid i uuid, row_name = n\<rparr> d"

definition create_topic :: "ident \<Rightarrow> ident option \<Rightarrow> string \<Rightarrow> db \<Rightarrow> error + db" where
  "create_topic uuid i n d = sql_insert_topic \<lparr>row_id = id_or_uuid i uuid, row_name = n\<rparr> d"

definition create_category :: "ident \<Rightarrow> ident option \<Rightarrow> string \<Rightarrow> db \<Rightarrow> error + db" where
  "create_category uuid i n d =
     sql_insert_category \<lparr>row_id = id_or_uuid i uuid, row_name = n\<rparr> d"

text \<open>\<^verbatim>\<open>SeriesRepository.create\<close>: the series row and its author links, in one transaction.\<close>

definition create_series_body ::
  "ident \<Rightarrow> ident option \<Rightarrow> string \<Rightarrow> ident list \<Rightarrow> db \<Rightarrow> error + (unit \<times> db)" where
  "create_series_body uuid i n author_ids d =
     (let sid = id_or_uuid i uuid
      in bind_e (sql_insert_series \<lparr>row_id = sid, row_name = n\<rparr> d)
           (\<lambda>d1. bind_e (for_each (sql_insert_series_author sid) author_ids d1)
              (\<lambda>d2. Inr ((), d2))))"

definition create_series ::
  "ident \<Rightarrow> ident option \<Rightarrow> string \<Rightarrow> ident list \<Rightarrow> db \<Rightarrow> (error + unit) \<times> db" where
  "create_series uuid i n author_ids = transaction (create_series_body uuid i n author_ids)"

text \<open>\<^verbatim>\<open>BookRepository.create\<close>: the book row and its three kinds of links.\<close>

definition create_book_body :: "ident \<Rightarrow> book_input \<Rightarrow> db \<Rightarrow> error + (unit \<times> db)" where
  "create_book_body uuid input d =
     (let bid = id_or_uuid (inputId input) uuid
      in bind_e (sql_insert_book \<lparr>book_id = bid, title = inputTitle input,
                   publisher_id = publisherId input,
                   series_id = series_or_null (seriesId input),
                   category_id = categoryId input\<rparr> d)
           (\<lambda>d1. bind_e (for_each (sql_insert_book_author bid) (authorIds input) d1)
              (\<lambda>d2. bind_e (for_each (sql_insert_book_genre bid) (genreIds input) d2)
                 (\<lambda>d3. bind_e (for_each (sql_insert_book_topic bid) (topicIds input) d3)
                    (\<lambda>d4. Inr ((), d4))))))"

definition create_book :: "ident \<Rightarrow> book_input \<Rightarrow> db \<Rightarrow> (error + unit) \<times> db" where
  "create_book uuid input = transaction (create_book_body uuid input)"

section \<open>Import of an export file\<close>

text \<open>
  The parsed file. A series record carries its authors, a book record its authors,
  genres and topics; the import reads only their identifiers. An absent list reads as
  the empty list (\<^verbatim>\<open>series.authors?.map(a => a.id) || []\<close>).
\<close>

record series_record =
  rec_id :: ident
  rec_name :: string
  rec_authors :: "named_row list"

record book_record =
  exp_id :: ident
  exp_title :: string
  exp_publisherId :: ident
  exp_seriesId :: "ident option"
  exp_categoryId :: ident
  exp_authors :: "named_row list"
  exp_genres :: "named_row list"
  exp_topics :: "named_row list"

record export_data =
  data_version :: string
  data_books :: "book_record list"
  data_authors :: "named_row list"
  data_publishers :: "named_row list"
  data_series :: "series_record list"
  data_genres :: "named_row list"
  data_topics :: "named_row list"
  data_categories :: "named_row list"

record import_result =
  success :: bool
  booksImported :: nat
  authorsImported :: nat
  publishersImported :: nat
  seriesImported :: nat
  genresImported :: nat
  topicsImported :: nat
  categoriesImported :: nat
  errors :: "string list"

definition initial_result :: import_result where
  "initial_result = \<lparr>success = False, booksImported = 0, authorsImported = 0,
     publishersImported = 0, seriesImported = 0, genresImported = 0, topicsImported = 0,
     categoriesImported = 0, errors = []\<rparr>"

text \<open>
  What the import loops carry: the number of identifiers drawn so far from the generator
  \<open>gen\<close>, the result object, and the store.
\<close>

record import_state =
  drawn :: nat
  res :: import_result
  store :: db

definition push_error :: "string \<Rightarrow> import_state \<Rightarrow> import_state" where
  "push_error m st = st\<lparr>res := (res st)\<lparr>errors := errors (res st) @ [m]\<rparr>\<rparr>"

definition failed_to_import :: "string \<Rightarrow> string \<Rightarrow> error \<Rightarrow> string" where
  "failed_to_import kind n e =
     ''Failed to import '' @ kind @ '' '' @ dq @ n @ dq @ '': '' @ error_message e"

text \<open>
  One pass of a loop whose \<open>create\<close> is a single insert: skip the record when its
  identifier is present, else insert it and count it, or record the error.
\<close>

definition import_row ::
  "string \<Rightarrow> (db \<Rightarrow> named_row list) \<Rightarrow> (ident \<Rightarrow> ident option \<Rightarrow> string \<Rightarrow> db \<Rightarrow> error + db)
   \<Rightarrow> (import_result \<Rightarrow> import_result) \<Rightarrow> (nat \<Rightarrow> ident) \<Rightarrow> named_row \<Rightarrow> import_state
   \<Rightarrow> import_state" where
  "import_row kind table create count gen r st =
     (case find_row (row_id r) (table (store st)) of
        Some existing \<Rightarrow> st
      | None \<Rightarrow>
          (case create (gen (drawn st)) (Some (row_id r)) (row_name r) (store st) of
             Inl e \<Rightarrow> push_error (failed_to_import kind (row_name r) e)
                        (st\<lparr>drawn := Suc (drawn st)\<rparr>)
           | Inr d' \<Rightarrow> st\<lparr>drawn := Suc (drawn st), res := count (res st), store := d'\<rparr>))"

definition import_category :: "(nat \<Rightarrow> ident) \<Rightarrow> named_row \<Rightarrow> import_state \<Rightarrow> import_state" where
  "import_category =
     import_row ''category'' categories create_category
       (\<lambda>r. r\<lparr>categoriesImported := categoriesImported r + 1\<rparr>)"

definition import_author :: "(nat \<Rightarrow> ident) \<Rightarrow> named_row \<Rightarrow> import_state \<Rightarrow> import_state" where
  "import_author =
     import_row ''author'' authors create_author
       (\<lambda>r. r\<lparr>authorsImported := authorsImported r + 1\<rparr>)"

definition import_publisher :: "(nat \<Rightarrow> ident) \<Rightarrow> named_row \<Rightarrow> import_state \<Rightarrow> import_state" where
  "import_publisher =
     import_row ''publisher'' publishers create_publisher
       (\<lambda>r. r\<lparr>publishersImported := publishersImported r + 1\<rparr>)"

definition import_genre :: "(nat \<Rightarrow> ident) \<Rightarrow> named_row \<Rightarrow> import_state \<Rightarrow> import_state" where
  "import_genre =
     import_row ''genre'' genres create_genre
       (\<lambda>r. r\<lparr>genresImported := genresImported r + 1\<rparr>)"

definition import_topic :: "(nat \<Rightarrow> ident) \<Rightarrow> named_row \<Rightarrow> import_state \<Rightarrow> import_state" where
  "import_topic =
     import_row ''topic'' topics create_topic
       (\<lambda>r. r\<lparr>topicsImported := topicsImported r + 1\<rparr>)"

text \<open>The series loop: a new series is created only when it lists an author.\<close>

definition import_series :: "(nat \<Rightarrow> ident) \<Rightarrow> series_record \<Rightarrow> import_state \<Rightarrow> import_state" where
  "import_series gen s st =
     (case find_row (rec_id s) (series (store st)) of
        Some existing \<Rightarrow> st
      | None \<Rightarrow>
          let author_ids = map row_id (rec_authors s)
          in if length author_ids > 0
             then (case create_series (gen (drawn st)) (Some (rec_id s)) (rec_name s) author_ids
                          (store st) of
                     (Inl e, d') \<Rightarrow> push_error (failed_to_import ''series'' (rec_name s) e)
                                     (st\<lparr>drawn := Suc (drawn st), store := d'\<rparr>)
                   | (Inr u, d') \<Rightarrow>
                       st\<lparr>drawn := Suc (drawn st),
                          res := (res st)\<lparr>seriesImported := seriesImported (res st) + 1\<rparr>,
                          store := d'\<rparr>)
             else st)"

definition book_input_of :: "book_record \<Rightarrow> book_input" where
  "book_input_of b =
     \<lparr>inputId = Some (exp_id b), inputTitle = exp_title b, publisherId = exp_publisherId b,
      seriesId = exp_seriesId b, categoryId = exp_categoryId b,
      authorIds = map row_id (exp_authors b), genreIds = map row_id (exp_genres b),
      topicIds = map row_id (exp_topics b)\<rparr>"

definition import_book :: "(nat \<Rightarrow> ident) \<Rightarrow> book_record \<Rightarrow> import_state \<Rightarrow> import_state" where
  "import_book gen b st =
     (case find_book (exp_id b) (store st) of
        Some existing \<Rightarrow> st
      | None \<Rightarrow>
          (case create_book (gen (drawn st)) (book_input_of b) (store st) of
             (Inl e, d') \<Rightarrow> push_error (failed_to_import ''book'' (exp_title b) e)
                             (st\<lparr>drawn := Suc (drawn st), store := d'\<rparr>)
           | (Inr u, d') \<Rightarrow>
               st\<lparr>drawn := Suc (drawn st),
                  res := (res st)\<lparr>booksImported := booksImported (res st) + 1\<rparr>,
                  store := d'\<rparr>))"

text \<open>The seven loops in the order of the source.\<close>

definition import_records :: "(nat \<Rightarrow> ident) \<Rightarrow> export_data \<Rightarrow> import_state \<Rightarrow> import_state" where
  "import_records gen data st =
     fold (import_book gen) (data_books data)
       (fold (import_series gen) (data_series data)
          (fold (import_topic gen) (data_topics data)
             (fold (import_genre gen) (data_genres data)
                (fold (import_publisher gen) (data_publishers data)
                   (fold (import_author gen) (data_authors data)
                      (fold (import_category gen) (data_categories data) st))))))"

definition cleanup_messages :: "cleanup_result \<Rightarrow> string list" where
  "cleanup_messages c =
     (if length (deletedAuthors c) > 0
      then [''Cleaned up '' @ show_nat (length (deletedAuthors c))
              @ '' orphan author(s) without books'']
      else [])
     @ (if length (deletedPublishers c) > 0
        then [''Cleaned up '' @ show_nat (length (deletedPublishers c))
                @ '' orphan publisher(s) without books'']
        else [])
     @ (if length (deletedSeries c) > 0
        then [''Cleaned up '' @ show_nat (length (deletedSeries c))
                @ '' orphan series without books'']
        else [])"

text \<open>
  \<^verbatim>\<open>ImportExportService.importFromJson\<close> after the file is read and parsed. The loops and
  the cleanup run in one transaction; a throw out of it rolls the store back, while the
  result object keeps what the loops wrote into it.
\<close>

definition importFromJson ::
  "(nat \<Rightarrow> ident) \<Rightarrow> export_data \<Rightarrow> db \<Rightarrow> import_result \<times> db" where
  "importFromJson gen data d =
     (if \<not> truthy (data_version data)
      then (initial_result\<lparr>errors := [''Invalid export file: missing version'']\<rparr>, d)
      else
        let st = import_records gen data \<lparr>drawn = 0, res = initial_result, store = d\<rparr>
        in (case cleanupOrphans (store st) of
              (Inl e, d') \<Rightarrow>
                ((res st)\<lparr>errors := errors (res st)
                    @ [''Failed to parse import file: '' @ error_message e]\<rparr>, d)
            | (Inr c, d') \<Rightarrow>
                let r = (res st)\<lparr>errors := errors (res st) @ cleanup_messages c\<rparr>
                in (r\<lparr>success := (length (errors r) = 0)\<rparr>, d')))"

section \<open>Sequences of operations\<close>

datatype operation =
  DeleteBook ident bool
  | UpdateBook ident book_input bool
  | DeleteAuthor ident
  | DeletePublisher ident
  | DeleteSeries ident
  | ImportBatch "nat \<Rightarrow> ident" export_data
  | CleanupOrphans



text \<open>
  Every series that the orphan sweep keeps has an author that the sweep keeps.
\<close>

definition sweep_keeps_series_authors :: "db \<Rightarrow> bool" where
  "sweep_keeps_series_authors e =
     (\<forall>s \<in> set (series e).
        row_id s \<notin> ids (orphan_series e)
        \<longrightarrow> (\<exists>l \<in> set (series_authors e).
               fst l = row_id s \<and> snd l \<notin> ids (orphan_authors e)))"

text \<open>The store when the loops of an import are through, before the cleanup.\<close>

definition after_loops :: "(nat \<Rightarrow> ident) \<Rightarrow> export_data \<Rightarrow> db \<Rightarrow> db" where
  "after_loops gen data d =
     store (import_records gen data \<lparr>drawn = 0, res = initial_result, store = d\<rparr>)"

text \<open>
  The calls for which validity is shown to survive. A cascading book delete or book
  update must leave every series other than the orphaned one with an author outside the
  orphaned authors of its impact report; an update without cascade must have an empty
  impact report; every update must carry a publisher identifier; the cleanup of an
  import must leave every series it keeps an author it keeps.
\<close>

fun guarded :: "operation \<Rightarrow> db \<Rightarrow> bool" where
  "guarded (DeleteBook b c) d =
     (c \<longrightarrow> (\<forall>s \<in> set (series d).
              Some s \<noteq> orphanedSeries (checkDeleteImpact b d)
              \<longrightarrow> (\<exists>l \<in> set (series_authors d).
                     fst l = row_id s
                     \<and> snd l \<notin> ids (orphanedAuthors (checkDeleteImpact b d)))))"
| "guarded (UpdateBook b i c) d =
     (truthy (publisherId i)
      \<and> (if c
         then (\<forall>s \<in> set (series d).
                 Some s \<noteq> orphanedSeries (checkUpdateImpact b i d)
                 \<longrightarrow> (\<exists>l \<in> set (series_authors d).
                        fst l = row_id s
                        \<and> snd l \<notin> ids (orphanedAuthors (checkUpdateImpact b i d))))
         else \<not> hasImpact (checkUpdateImpact b i d)))"
| "guarded (DeleteAuthor a) d = True"
| "guarded (DeletePublisher p) d = True"
| "guarded (DeleteSeries s) d = True"
| "guarded (ImportBatch gen data) d =
     (truthy (data_version data) \<longrightarrow> sweep_keeps_series_authors (after_loops gen data d))"
| "guarded CleanupOrphans d = True"



section \<open>Notions for the import theorems\<close>











section \<open>Example export files\<close>

text \<open>An export file whose only record is a series that lists no author.\<close>

definition series_only_batch :: export_data where
  "series_only_batch = \<lparr>data_version = ''1.0.0'', data_books = [], data_authors = [],
     data_publishers = [],
     data_series = [\<lparr>rec_id = ''S9'', rec_name = ''Saga'', rec_authors = []\<rparr>],
     data_genres = [], data_topics = [], data_categories = []\<rparr>"


text \<open>A generator that always returns the same identifier, for the examples.\<close>

definition fixed_uuid :: "nat \<Rightarrow> ident" where
  "fixed_uuid n = ''U''"







section \<open>Verified properties\<close>

subsection \<open>Lookups\<close>

lemma find_row_Some_id: "find_row i rows = Some r \<Longrightarrow> row_id r = i \<and> r \<in> set rows"
  unfolding find_row_def by (induction rows) (auto split: if_splits)

lemma find_row_None_iff: "find_row i rows = None \<longleftrightarrow> i \<notin> ids rows"
  unfolding find_row_def ids_def by (induction rows) auto

lemma find_book_Some: "find_book i d = Some b \<Longrightarrow> book_id b = i \<and> b \<in> set (books d)"
  unfolding find_book_def by (induction "books d" arbitrary: d) (auto simp: find_Some_iff)


lemma wf_sole_book_db: "wf_db sole_book_db"
  by (simp add: wf_db_def sole_book_db_def book_fks_ok_def ids_def links_resolve_def)

lemma wf_shared_db: "wf_db shared_db"
  by (simp add: wf_db_def shared_db_def book_fks_ok_def ids_def links_resolve_def)

lemma find_book_sole: "find_book ''X'' sole_book_db =
  Some \<lparr>book_id = ''X'', title = ''X'', publisher_id = ''P1'', series_id = Some ''S1'',
        category_id = ''C1''\<rparr>"
  by (simp add: find_book_def sole_book_db_def)

lemma find_book_shared: "find_book ''X'' shared_db =
  Some \<lparr>book_id = ''X'', title = ''X'', publisher_id = ''P1'', series_id = None,
        category_id = ''C1''\<rparr>"
  by (simp add: find_book_def shared_db_def)

subsection \<open>The two delete-impact computations\<close>

text \<open>
  C10. For an existing book, \<open>DomainService.checkBookDeletionImpact\<close> and
  \<open>BookRepository.checkDeleteImpact\<close> report the same orphaned authors, the same
  orphaned publisher, the same orphaned series, and \<open>canDelete\<close> holds exactly when
  \<open>hasImpact\<close> does not.
\<close>

theorem delete_impact_implementations_agree:
  assumes "find_book b d = Some bk"
  shows "wouldOrphanAuthors (checkBookDeletionImpact b d) = orphanedAuthors (checkDeleteImpact b d)
    \<and> wouldOrphanPublisher (checkBookDeletionImpact b d)
        = orphanedPublisher (checkDeleteImpact b d)
    \<and> wouldOrphanSeries (checkBookDeletionImpact b d) = orphanedSeries (checkDeleteImpact b d)
    \<and> canDelete (checkBookDeletionImpact b d) = (\<not> hasImpact (checkDeleteImpact b d))"
  using assms
  by (auto simp: checkBookDeletionImpact_def checkDeleteImpact_def Let_def deletion_problems_def
      orphaned_publisher_query_def orphaned_series_query_def split: option.splits)

theorem delete_impact_implementations_agree_witness:
  "wouldOrphanAuthors (checkBookDeletionImpact ''X'' sole_book_db)
      = orphanedAuthors (checkDeleteImpact ''X'' sole_book_db)
    \<and> wouldOrphanPublisher (checkBookDeletionImpact ''X'' sole_book_db)
        = orphanedPublisher (checkDeleteImpact ''X'' sole_book_db)
    \<and> wouldOrphanSeries (checkBookDeletionImpact ''X'' sole_book_db)
        = orphanedSeries (checkDeleteImpact ''X'' sole_book_db)
    \<and> canDelete (checkBookDeletionImpact ''X'' sole_book_db)
        = (\<not> hasImpact (checkDeleteImpact ''X'' sole_book_db))
    \<and> hasImpact (checkDeleteImpact ''X'' sole_book_db)"
proof -
  have "hasImpact (checkDeleteImpact ''X'' sole_book_db)"
    by (simp add: checkDeleteImpact_def find_book_sole Let_def orphaned_publisher_query_def
        publisher_book_count_def find_row_def, simp add: sole_book_db_def)
  then show ?thesis
    using delete_impact_implementations_agree [OF find_book_sole] by simp
qed

subsection \<open>Missing books\<close>

text \<open>
  C9, as the code has it. For an identifier that names no book, \<open>checkDeleteImpact\<close>
  and \<open>checkUpdateImpact\<close> return the empty report with \<open>hasImpact\<close> false; neither
  operation has an error outcome.
\<close>

theorem impact_of_missing_book_is_empty_report:
  assumes "find_book b d = None"
  shows "checkDeleteImpact b d = no_impact \<and> checkUpdateImpact b s d = no_impact"
  using assms by (simp add: checkDeleteImpact_def checkUpdateImpact_def)

theorem impact_of_missing_book_is_empty_report_witness:
  "find_book ''Z'' sole_book_db = None
   \<and> checkDeleteImpact ''Z'' sole_book_db = no_impact
   \<and> checkUpdateImpact ''Z''
       \<lparr>inputId = None, inputTitle = ''Z'', publisherId = ''P1'', seriesId = None,
        categoryId = ''C1'', authorIds = [], genreIds = [], topicIds = []\<rparr> sole_book_db
       = no_impact"
proof -
  have h: "find_book ''Z'' sole_book_db = None"
    by (simp add: find_book_def sole_book_db_def)
  show ?thesis
    using h impact_of_missing_book_is_empty_report [OF h,
      where s = "\<lparr>inputId = None, inputTitle = ''Z'', publisherId = ''P1'', seriesId = None,
        categoryId = ''C1'', authorIds = [], genreIds = [], topicIds = []\<rparr>"]
    by simp
qed

text \<open>
  The claim as stated asks for a not-found error; on the empty store the deletion check
  of a missing book is the report below.
\<close>

theorem missing_book_reports_instead_of_failing:
  "find_book ''Z'' empty_db = None
   \<and> checkDeleteImpact ''Z'' empty_db
       = \<lparr>orphanedAuthors = [], orphanedPublisher = None, orphanedSeries = None,
          hasImpact = False\<rparr>
   \<and> checkUpdateImpact ''Z''
       \<lparr>inputId = None, inputTitle = ''Z'', publisherId = ''P1'', seriesId = None,
        categoryId = ''C1'', authorIds = [], genreIds = [], topicIds = []\<rparr> empty_db
       = \<lparr>orphanedAuthors = [], orphanedPublisher = None, orphanedSeries = None,
          hasImpact = False\<rparr>"
  by (simp add: checkDeleteImpact_def checkUpdateImpact_def find_book_def empty_db_def
      no_impact_def)

subsection \<open>Update impact looks only at what is removed\<close>

lemma orphaned_if_sole_book_id: "r \<in> set (orphaned_if_sole_book d a) \<Longrightarrow> row_id r = a"
  by (cases "author_book_count a d = 1")
    (auto simp: orphaned_if_sole_book_def dest: find_row_Some_id [OF sym])

text \<open>
  C5. In the report of \<open>checkUpdateImpact\<close> for an existing book, a publisher is
  reported only when the proposed publisher differs from the current one, a series only
  when the proposed series differs from the current one, and every reported author is
  linked to the book now and absent from the proposed author list. So an unchanged
  field carries no report, whatever its count.
\<close>

theorem update_impact_only_for_removed:
  assumes "find_book b d = Some bk"
  shows "(orphanedPublisher (checkUpdateImpact b s d) \<noteq> None
            \<longrightarrow> publisherId s \<noteq> publisher_id bk)
    \<and> (orphanedSeries (checkUpdateImpact b s d) \<noteq> None \<longrightarrow> seriesId s \<noteq> series_id bk)
    \<and> row_id ` set (orphanedAuthors (checkUpdateImpact b s d))
        \<subseteq> {a. (b, a) \<in> set (book_authors d)} - set (authorIds s)"
proof -
  have a: "row_id ` set (orphanedAuthors (checkUpdateImpact b s d))
        \<subseteq> {a. (b, a) \<in> set (book_authors d)} - set (authorIds s)"
    using assms
    by (auto simp: checkUpdateImpact_def Let_def removed_author_ids_def current_author_ids_def
        dest!: orphaned_if_sole_book_id)
  have p: "orphanedPublisher (checkUpdateImpact b s d) \<noteq> None
            \<longrightarrow> publisherId s \<noteq> publisher_id bk"
    using assms by (auto simp: checkUpdateImpact_def Let_def)
  have q: "orphanedSeries (checkUpdateImpact b s d) \<noteq> None \<longrightarrow> seriesId s \<noteq> series_id bk"
    using assms by (auto simp: checkUpdateImpact_def Let_def split: option.splits)
  from a p q show ?thesis by blast
qed

text \<open>
  On the state where X is the only book of P1, S1 and A1: keeping all three reports
  nothing, although each count is one.
\<close>

theorem update_impact_only_for_removed_witness:
  "checkUpdateImpact ''X''
     \<lparr>inputId = None, inputTitle = ''X2'', publisherId = ''P1'', seriesId = Some ''S1'',
      categoryId = ''C1'', authorIds = [''A1''], genreIds = [], topicIds = []\<rparr> sole_book_db
   = no_impact
   \<and> publisher_book_count ''P1'' sole_book_db = 1
   \<and> series_book_count ''S1'' sole_book_db = 1
   \<and> author_book_count ''A1'' sole_book_db = 1"
proof -
  let ?s = "\<lparr>inputId = None, inputTitle = ''X2'', publisherId = ''P1'', seriesId = Some ''S1'',
      categoryId = ''C1'', authorIds = [''A1''], genreIds = [], topicIds = []\<rparr>"
  have c: "publisher_book_count ''P1'' sole_book_db = 1 \<and> series_book_count ''S1'' sole_book_db = 1
     \<and> author_book_count ''A1'' sole_book_db = 1"
    by (simp add: publisher_book_count_def series_book_count_def author_book_count_def
        sole_book_db_def)
  have e: "orphanedAuthors (checkUpdateImpact ''X'' ?s sole_book_db) = []"
    using update_impact_only_for_removed [OF find_book_sole, of ?s]
    by (simp add: sole_book_db_def)
  have "checkUpdateImpact ''X'' ?s sole_book_db = no_impact"
    using update_impact_only_for_removed [OF find_book_sole, of ?s] e
    by (simp add: checkUpdateImpact_def find_book_sole Let_def no_impact_def)
  with c show ?thesis by simp
qed

subsection \<open>The impact report of the sole-book state\<close>

lemma sole_book_impact:
  "checkDeleteImpact ''X'' sole_book_db
   = \<lparr>orphanedAuthors = [\<lparr>row_id = ''A1'', row_name = ''A1''\<rparr>],
      orphanedPublisher = Some \<lparr>row_id = ''P1'', row_name = ''P1''\<rparr>,
      orphanedSeries = Some \<lparr>row_id = ''S1'', row_name = ''S1''\<rparr>,
      hasImpact = True\<rparr>"
  by (simp add: checkDeleteImpact_def find_book_sole Let_def orphaned_publisher_query_def
      orphaned_series_query_def orphaned_authors_query_def publisher_book_count_def
      series_book_count_def author_book_count_def find_row_def truthy_def,
      simp add: sole_book_db_def)

subsection \<open>What the delete impact reports\<close>

lemma set_orphaned_authors_query:
  "set (orphaned_authors_query b d)
   = {a \<in> set (authors d). (b, row_id a) \<in> set (book_authors d)
        \<and> author_book_count (row_id a) d = 1}"
  unfolding orphaned_authors_query_def by auto

lemma orphaned_author_ids:
  assumes "links_resolve (book_authors d) (book_id ` set (books d)) (ids (authors d))"
  shows "row_id ` set (orphaned_authors_query b d)
         = {a. (b, a) \<in> set (book_authors d) \<and> author_book_count a d = 1}"
proof -
  have "\<And>a. (b, a) \<in> set (book_authors d) \<Longrightarrow> \<exists>r \<in> set (authors d). row_id r = a"
    using assms unfolding links_resolve_def ids_def by force
  then show ?thesis
    unfolding set_orphaned_authors_query by (auto simp: image_iff)
qed

text \<open>
  C4. On a state that satisfies the constraints of the schema, the report of
  \<open>checkDeleteImpact\<close> for an existing book holds (a) exactly the linked authors
  whose total number of book links is one, each as its row of the author table;
  (b) a publisher exactly when the book's publisher has one book in total, and then
  that publisher; (c) a series exactly when the book has a series with one book in
  total, and then that series; and \<open>hasImpact\<close> is the disjunction of the three
  being non-empty.
\<close>

theorem delete_impact_reports_sole_links:
  assumes "wf_db d" and "find_book b d = Some bk"
  shows "row_id ` set (orphanedAuthors (checkDeleteImpact b d))
           = {a. (b, a) \<in> set (book_authors d) \<and> author_book_count a d = 1}
    \<and> set (orphanedAuthors (checkDeleteImpact b d)) \<subseteq> set (authors d)
    \<and> (orphanedPublisher (checkDeleteImpact b d) \<noteq> None
         \<longleftrightarrow> publisher_book_count (publisher_id bk) d = 1)
    \<and> (\<forall>p. orphanedPublisher (checkDeleteImpact b d) = Some p
            \<longrightarrow> row_id p = publisher_id bk \<and> p \<in> set (publishers d))
    \<and> (orphanedSeries (checkDeleteImpact b d) \<noteq> None
         \<longleftrightarrow> (\<exists>s. series_id bk = Some s \<and> series_book_count s d = 1))
    \<and> (\<forall>s. orphanedSeries (checkDeleteImpact b d) = Some s
            \<longrightarrow> series_id bk = Some (row_id s) \<and> s \<in> set (series d))
    \<and> hasImpact (checkDeleteImpact b d)
        = (orphanedAuthors (checkDeleteImpact b d) \<noteq> []
           \<or> orphanedPublisher (checkDeleteImpact b d) \<noteq> None
           \<or> orphanedSeries (checkDeleteImpact b d) \<noteq> None)"
proof -
  have bk: "bk \<in> set (books d)" using assms(2) find_book_Some by blast
  have fk: "book_fks_ok (publisher_id bk) (series_id bk) (category_id bk) d"
    and ne: "series_id bk \<noteq> Some []"
    using assms(1) bk unfolding wf_db_def by auto
  have lr: "links_resolve (book_authors d) (book_id ` set (books d)) (ids (authors d))"
    using assms(1) unfolding wf_db_def by simp
  have pub: "find_row (publisher_id bk) (publishers d) \<noteq> None"
    using fk by (simp add: find_row_None_iff book_fks_ok_def)
  have ser: "\<And>s. series_id bk = Some s \<Longrightarrow> find_row s (series d) \<noteq> None \<and> truthy s"
    using fk ne by (auto simp: find_row_None_iff book_fks_ok_def truthy_def)
  have 1: "row_id ` set (orphanedAuthors (checkDeleteImpact b d))
           = {a. (b, a) \<in> set (book_authors d) \<and> author_book_count a d = 1}"
    using orphaned_author_ids [OF lr, of b] assms(2)
    by (simp add: checkDeleteImpact_def Let_def)
  have 2: "set (orphanedAuthors (checkDeleteImpact b d)) \<subseteq> set (authors d)"
    using assms(2) by (auto simp: checkDeleteImpact_def Let_def set_orphaned_authors_query)
  have 3: "orphanedPublisher (checkDeleteImpact b d) \<noteq> None
         \<longleftrightarrow> publisher_book_count (publisher_id bk) d = 1"
    using assms(2) pub
    by (simp add: checkDeleteImpact_def Let_def orphaned_publisher_query_def)
  have 4: "\<forall>p. orphanedPublisher (checkDeleteImpact b d) = Some p
            \<longrightarrow> row_id p = publisher_id bk \<and> p \<in> set (publishers d)"
    using assms(2)
    by (auto simp: checkDeleteImpact_def Let_def orphaned_publisher_query_def
        dest: find_row_Some_id split: if_splits)
  have 5: "orphanedSeries (checkDeleteImpact b d) \<noteq> None
         \<longleftrightarrow> (\<exists>s. series_id bk = Some s \<and> series_book_count s d = 1)"
    using assms(2) ser
    by (auto simp: checkDeleteImpact_def Let_def orphaned_series_query_def
        split: option.splits if_splits)
  have 6: "\<forall>s. orphanedSeries (checkDeleteImpact b d) = Some s
            \<longrightarrow> series_id bk = Some (row_id s) \<and> s \<in> set (series d)"
    using assms(2)
    by (auto simp: checkDeleteImpact_def Let_def orphaned_series_query_def
        dest: find_row_Some_id split: option.splits if_splits)
  have 7: "hasImpact (checkDeleteImpact b d)
        = (orphanedAuthors (checkDeleteImpact b d) \<noteq> []
           \<or> orphanedPublisher (checkDeleteImpact b d) \<noteq> None
           \<or> orphanedSeries (checkDeleteImpact b d) \<noteq> None)"
    using assms(2) by (simp add: checkDeleteImpact_def Let_def)
  from 1 2 3 4 5 6 7 show ?thesis by blast
qed

text \<open>
  On the shared state, A1 is linked to X alone and is reported; A2 also wrote Y and the
  publisher has two books, so neither is reported.
\<close>

theorem delete_impact_reports_sole_links_witness:
  "row_id ` set (orphanedAuthors (checkDeleteImpact ''X'' shared_db)) = {''A1''}
   \<and> orphanedPublisher (checkDeleteImpact ''X'' shared_db) = None
   \<and> orphanedSeries (checkDeleteImpact ''X'' shared_db) = None
   \<and> hasImpact (checkDeleteImpact ''X'' shared_db)"
proof -
  have a: "{a. (''X'', a) \<in> set (book_authors shared_db) \<and> author_book_count a shared_db = 1}
           = {''A1''}"
    by (auto simp: shared_db_def author_book_count_def)
  have p: "publisher_book_count ''P1'' shared_db = 2"
    by (simp add: shared_db_def publisher_book_count_def)
  note t = delete_impact_reports_sole_links [OF wf_shared_db find_book_shared]
  note t1 = t [THEN conjunct1]
  note t3 = t [THEN conjunct2, THEN conjunct2, THEN conjunct1]
  note t5 = t [THEN conjunct2, THEN conjunct2, THEN conjunct2, THEN conjunct2, THEN conjunct1]
  note t7 = t [THEN conjunct2, THEN conjunct2, THEN conjunct2, THEN conjunct2, THEN conjunct2,
    THEN conjunct2]
  have 1: "row_id ` set (orphanedAuthors (checkDeleteImpact ''X'' shared_db)) = {''A1''}"
    using t1 a by simp
  have ne: "orphanedAuthors (checkDeleteImpact ''X'' shared_db) \<noteq> []"
  proof
    assume "orphanedAuthors (checkDeleteImpact ''X'' shared_db) = []"
    with 1 show False by simp
  qed
  have 2: "orphanedPublisher (checkDeleteImpact ''X'' shared_db) = None"
    using t3 p by simp
  have 3: "orphanedSeries (checkDeleteImpact ''X'' shared_db) = None"
    using t5 by simp
  have 4: "hasImpact (checkDeleteImpact ''X'' shared_db)"
    using t7 ne by simp
  from 1 2 3 4 show ?thesis by simp
qed

subsection \<open>Deleting the only author of a series\<close>

lemma wf_bookless_author_db: "wf_db bookless_author_db"
  by (simp add: wf_db_def bookless_author_db_def book_fks_ok_def ids_def links_resolve_def)

text \<open>
  C3, at a failing input. A1 has no book and is the only author of S1. The impact check
  names S1, yet \<open>deleteAuthor\<close> succeeds, removes A1 with its series link, and S1 is left
  without an author.
\<close>

theorem delete_author_leaves_series_without_author:
  "seriesWithNoAuthors (checkAuthorDeleteImpact ''A1'' bookless_author_db)
     = [\<lparr>row_id = ''S1'', row_name = ''S1''\<rparr>]
   \<and> series_no_authors bookless_author_db = []
   \<and> fst (deleteAuthor ''A1'' bookless_author_db) = Inr ()
   \<and> authors (snd (deleteAuthor ''A1'' bookless_author_db))
       = [\<lparr>row_id = ''A2'', row_name = ''A2''\<rparr>]
   \<and> series_authors (snd (deleteAuthor ''A1'' bookless_author_db)) = []
   \<and> series_no_authors (snd (deleteAuthor ''A1'' bookless_author_db))
       = [\<lparr>row_id = ''S1'', row_name = ''S1''\<rparr>]"
  by (simp add: checkAuthorDeleteImpact_def deleteAuthor_def bookless_author_db_def
      series_author_count_def author_book_count_def series_no_authors_def
      sql_delete_series_authors_of_author_def sql_delete_author_def ids_def Let_def)

subsection \<open>Series records of an import\<close>

lemma for_each_insert_series_author:
  assumes "distinct as" and "set as \<subseteq> ids (authors d)" and "s \<in> ids (series d)"
    and "\<forall>a \<in> set as. (s, a) \<notin> set (series_authors d)"
  shows "for_each (sql_insert_series_author s) as d
         = Inr (d\<lparr>series_authors := series_authors d @ map (Pair s) as\<rparr>)"
  using assms
proof (induction as arbitrary: d)
  case Nil
  then show ?case by simp
next
  case (Cons a as)
  let ?d1 = "d\<lparr>series_authors := series_authors d @ [(s, a)]\<rparr>"
  have step: "sql_insert_series_author s a d = Inr ?d1"
    using Cons.prems by (simp add: sql_insert_series_author_def insert_link_def bind_e_def)
  have "for_each (sql_insert_series_author s) as ?d1
        = Inr (?d1\<lparr>series_authors := series_authors ?d1 @ map (Pair s) as\<rparr>)"
    using Cons.prems by (intro Cons.IH) auto
  then show ?case by (simp add: step bind_e_def)
qed

text \<open>
  C8, as the code has it. In the series loop of an import, a record without authors
  changes nothing: no row is inserted and no error string is appended. A record with
  authors whose identifier is not stored yet is inserted with all its author links,
  and counted, when every listed author is stored and none is listed twice.
\<close>

theorem import_series_by_author_list:
  assumes "wf_db (store st)" and "truthy (rec_id s)"
    and "rec_id s \<notin> ids (series (store st))"
  shows "(rec_authors s = [] \<longrightarrow> import_series gen s st = st)
    \<and> (rec_authors s \<noteq> [] \<and> distinct (map row_id (rec_authors s))
         \<and> row_id ` set (rec_authors s) \<subseteq> ids (authors (store st))
       \<longrightarrow> series (store (import_series gen s st))
             = series (store st) @ [\<lparr>row_id = rec_id s, row_name = rec_name s\<rparr>]
           \<and> series_authors (store (import_series gen s st))
             = series_authors (store st) @ map (\<lambda>a. (rec_id s, row_id a)) (rec_authors s)
           \<and> seriesImported (res (import_series gen s st)) = seriesImported (res st) + 1
           \<and> errors (res (import_series gen s st)) = errors (res st))"
proof -
  have nf: "find_row (rec_id s) (series (store st)) = None"
    using assms(3) by (simp add: find_row_None_iff)
  have a: "rec_authors s = [] \<longrightarrow> import_series gen s st = st"
    by (simp add: import_series_def nf)
  have b: "series (store (import_series gen s st))
             = series (store st) @ [\<lparr>row_id = rec_id s, row_name = rec_name s\<rparr>]
           \<and> series_authors (store (import_series gen s st))
             = series_authors (store st) @ map (\<lambda>a. (rec_id s, row_id a)) (rec_authors s)
           \<and> seriesImported (res (import_series gen s st)) = seriesImported (res st) + 1
           \<and> errors (res (import_series gen s st)) = errors (res st)"
    if ne: "rec_authors s \<noteq> []" and di: "distinct (map row_id (rec_authors s))"
      and ex: "row_id ` set (rec_authors s) \<subseteq> ids (authors (store st))"
  proof -
    let ?row = "\<lparr>row_id = rec_id s, row_name = rec_name s\<rparr>"
    let ?d1 = "(store st)\<lparr>series := series (store st) @ [?row]\<rparr>"
    have ins: "sql_insert_series ?row (store st) = Inr ?d1"
      using assms(3) by (simp add: sql_insert_series_def insert_row_def bind_e_def)
    have nolinks: "\<forall>a \<in> set (map row_id (rec_authors s)).
                     (rec_id s, a) \<notin> set (series_authors ?d1)"
      using assms(1) assms(3) unfolding wf_db_def links_resolve_def by force
    have links: "for_each (sql_insert_series_author (rec_id s)) (map row_id (rec_authors s)) ?d1
          = Inr (?d1\<lparr>series_authors := series_authors ?d1
                   @ map (Pair (rec_id s)) (map row_id (rec_authors s))\<rparr>)"
      using di ex nolinks
      by (intro for_each_insert_series_author) (auto simp: ids_def)
    have cr: "create_series (gen (drawn st)) (Some (rec_id s)) (rec_name s)
                (map row_id (rec_authors s)) (store st)
              = (Inr (), ?d1\<lparr>series_authors := series_authors ?d1
                   @ map (Pair (rec_id s)) (map row_id (rec_authors s))\<rparr>)"
      using assms(2)
      by (simp add: create_series_def transaction_def create_series_body_def id_or_uuid_def
          ins links bind_e_def Let_def)
    show ?thesis
      using ne by (simp add: import_series_def nf cr comp_def)
  qed
  from a b show ?thesis by blast
qed

theorem import_series_by_author_list_witness:
  "import_series (\<lambda>n. ''U'') \<lparr>rec_id = ''S8'', rec_name = ''Empty'', rec_authors = []\<rparr>
     \<lparr>drawn = 0, res = initial_result, store = shared_db\<rparr>
   = \<lparr>drawn = 0, res = initial_result, store = shared_db\<rparr>
   \<and> series (store (import_series (\<lambda>n. ''U'')
         \<lparr>rec_id = ''S2'', rec_name = ''Two'',
          rec_authors = [\<lparr>row_id = ''A2'', row_name = ''A2''\<rparr>]\<rparr>
         \<lparr>drawn = 0, res = initial_result, store = shared_db\<rparr>))
     = [\<lparr>row_id = ''S1'', row_name = ''S1''\<rparr>, \<lparr>row_id = ''S2'', row_name = ''Two''\<rparr>]
   \<and> series_authors (store (import_series (\<lambda>n. ''U'')
         \<lparr>rec_id = ''S2'', rec_name = ''Two'',
          rec_authors = [\<lparr>row_id = ''A2'', row_name = ''A2''\<rparr>]\<rparr>
         \<lparr>drawn = 0, res = initial_result, store = shared_db\<rparr>))
     = [(''S1'', ''A1''), (''S2'', ''A2'')]"
proof -
  let ?st = "\<lparr>drawn = 0, res = initial_result, store = shared_db\<rparr>"
  have w: "wf_db (store ?st)" by (simp add: wf_shared_db)
  have s8: "truthy (rec_id \<lparr>rec_id = ''S8'', rec_name = ''Empty'', rec_authors = []\<rparr>)"
    "rec_id \<lparr>rec_id = ''S8'', rec_name = ''Empty'', rec_authors = []\<rparr>
       \<notin> ids (series (store ?st))"
    by (simp_all add: truthy_def ids_def shared_db_def)
  let ?s2 = "\<lparr>rec_id = ''S2'', rec_name = ''Two'',
          rec_authors = [\<lparr>row_id = ''A2'', row_name = ''A2''\<rparr>]\<rparr>"
  have s2: "truthy (rec_id ?s2)" "rec_id ?s2 \<notin> ids (series (store ?st))"
    by (simp_all add: truthy_def ids_def shared_db_def)
  have pre: "rec_authors ?s2 \<noteq> [] \<and> distinct (map row_id (rec_authors ?s2))
         \<and> row_id ` set (rec_authors ?s2) \<subseteq> ids (authors (store ?st))"
    by (simp add: ids_def shared_db_def)
  have 1: "import_series (\<lambda>n. ''U'') \<lparr>rec_id = ''S8'', rec_name = ''Empty'', rec_authors = []\<rparr>
             ?st = ?st"
    using import_series_by_author_list [OF w s8, THEN conjunct1] by simp
  have 2: "series (store (import_series (\<lambda>n. ''U'') ?s2 ?st))
             = series (store ?st) @ [\<lparr>row_id = rec_id ?s2, row_name = rec_name ?s2\<rparr>]
           \<and> series_authors (store (import_series (\<lambda>n. ''U'') ?s2 ?st))
             = series_authors (store ?st) @ map (\<lambda>a. (rec_id ?s2, row_id a)) (rec_authors ?s2)
           \<and> seriesImported (res (import_series (\<lambda>n. ''U'') ?s2 ?st))
              = seriesImported (res ?st) + 1
           \<and> errors (res (import_series (\<lambda>n. ''U'') ?s2 ?st)) = errors (res ?st)"
    using import_series_by_author_list [OF w s2, THEN conjunct2, rule_format, OF pre] .
  from 1 2 show ?thesis by (simp add: shared_db_def)
qed

text \<open>
  The claim as stated asks for an error string per skipped series. Importing a file
  whose only record is a series without authors reports success with no error at all.
\<close>

theorem import_drops_authorless_series_silently:
  "importFromJson fixed_uuid series_only_batch empty_db
   = (\<lparr>success = True, booksImported = 0, authorsImported = 0, publishersImported = 0,
       seriesImported = 0, genresImported = 0, topicsImported = 0, categoriesImported = 0,
       errors = []\<rparr>, empty_db)"
  by (simp add: importFromJson_def series_only_batch_def truthy_def import_records_def
      import_series_def find_row_def empty_db_def cleanupOrphans_def transaction_def
      cleanup_orphans_body_def orphan_authors_def orphan_publishers_def orphan_series_def
      bind_e_def cleanup_messages_def initial_result_def Let_def)

subsection \<open>Facts about keys and counts\<close>

lemma ids_simps [simp]:
  "ids [] = {}"
  "ids (rows @ rows2) = ids rows \<union> ids rows2"
  "ids (r # rows) = insert (row_id r) (ids rows)"
  by (auto simp: ids_def)

lemma ids_filter_neq [simp]: "ids (filter (\<lambda>r. row_id r \<noteq> a) rows) = ids rows - {a}"
  by (auto simp: ids_def)

lemma ids_filter_notin [simp]: "ids (filter (\<lambda>r. row_id r \<notin> A) rows) = ids rows - A"
  by (auto simp: ids_def)

lemma in_idsI: "r \<in> set rows \<Longrightarrow> row_id r \<in> ids rows"
  by (simp add: ids_def)

lemma filter_id_conv: "(\<And>x. x \<in> set xs \<Longrightarrow> P x) \<Longrightarrow> filter P xs = xs"
  by (induction xs) auto

lemma length_filter_one_unique:
  assumes "length (filter P xs) = 1" and "x \<in> set xs" and "P x" and "y \<in> set xs" and "P y"
  shows "y = x"
proof -
  obtain z where z: "filter P xs = [z]"
    using assms(1) by (cases "filter P xs") auto
  have "x \<in> set (filter P xs)" "y \<in> set (filter P xs)" using assms by auto
  then show ?thesis by (simp add: z)
qed



subsection \<open>The cascading deletes as row removal\<close>

lemma db_eqI:
  assumes "books x = books y" "authors x = authors y" "publishers x = publishers y"
    "series x = series y" "genres x = genres y" "topics x = topics y"
    "categories x = categories y" "book_authors x = book_authors y"
    "book_genres x = book_genres y" "book_topics x = book_topics y"
    "series_authors x = series_authors y"
  shows "(x :: db) = y"
  using assms by (cases x, cases y) simp

lemma without_authors_empty [simp]: "without_authors {} d = d"
  by (simp add: without_authors_def)

lemma without_publishers_empty [simp]: "without_publishers {} d = d"
  by (simp add: without_publishers_def)

lemma without_series_empty [simp]: "without_series {} d = d"
  by (simp add: without_series_def)

lemma without_authors_twice:
  "without_authors B (without_authors A d) = without_authors (A \<union> B) d"
  by (auto simp: without_authors_def intro: filter_cong)

lemma without_publishers_twice:
  "without_publishers B (without_publishers A d) = without_publishers (A \<union> B) d"
  by (auto simp: without_publishers_def intro: filter_cong)

lemma delete_orphan_author_eq:
  assumes "\<forall>l \<in> set (book_authors x). snd l \<in> ids (authors x)"
  shows "delete_orphan_author a x = without_authors {row_id a} x"
proof (cases "row_id a \<in> ids (authors x)")
  case True
  then show ?thesis
    by (simp add: delete_orphan_author_def sql_delete_author_def
        sql_delete_series_authors_of_author_def without_authors_def)
next
  case False
  then have "filter (\<lambda>r. row_id r \<noteq> row_id a) (authors x) = authors x"
    by (intro filter_id_conv) (metis in_idsI)
  moreover have "filter (\<lambda>l. snd l \<noteq> row_id a) (book_authors x) = book_authors x"
    using assms False by (intro filter_id_conv) auto
  ultimately show ?thesis
    using False
    by (intro db_eqI)
      (simp_all add: delete_orphan_author_def sql_delete_author_def
        sql_delete_series_authors_of_author_def without_authors_def)
qed

lemma fold_delete_orphan_author:
  assumes "\<forall>l \<in> set (book_authors x). snd l \<in> ids (authors x)"
  shows "fold delete_orphan_author oa x = without_authors (ids oa) x"
  using assms
proof (induction oa arbitrary: x)
  case Nil
  then show ?case by simp
next
  case (Cons a oa)
  have 1: "delete_orphan_author a x = without_authors {row_id a} x"
    using Cons.prems by (rule delete_orphan_author_eq)
  have 2: "\<forall>l \<in> set (book_authors (without_authors {row_id a} x)).
             snd l \<in> ids (authors (without_authors {row_id a} x))"
    using Cons.prems by (auto simp: without_authors_def)
  have "fold delete_orphan_author oa (without_authors {row_id a} x)
        = without_authors (ids oa) (without_authors {row_id a} x)"
    using 2 by (rule Cons.IH)
  then show ?case
    by (simp add: 1 without_authors_twice)
qed

lemma bind_e_simps [simp]: "bind_e (Inr x) f = f x" "bind_e (Inl e) f = Inl e"
  by (simp_all add: bind_e_def)

lemma without_series_twice:
  "without_series B (without_series A d) = without_series (A \<union> B) d"
  by (intro db_eqI) (auto simp: without_series_def intro: filter_cong)

lemma delete_orphan_series_eq:
  assumes "\<forall>b \<in> set (books x). \<forall>i. series_id b = Some i \<longrightarrow> i \<in> ids (series x)"
  shows "delete_orphan_series s x = without_series {row_id s} x"
proof (cases "row_id s \<in> ids (series x)")
  case True
  then show ?thesis
    by (simp add: delete_orphan_series_def sql_delete_series_def
        sql_delete_series_authors_of_series_def without_series_def)
next
  case False
  then have 1: "filter (\<lambda>r. row_id r \<noteq> row_id s) (series x) = series x"
    by (intro filter_id_conv) (metis in_idsI)
  have 2: "map (\<lambda>b. if series_id b = Some (row_id s) then b\<lparr>series_id := None\<rparr> else b) (books x)
           = books x"
    using assms False by (intro map_idI) auto
  show ?thesis
    using False 1 2
    by (intro db_eqI)
      (simp_all add: delete_orphan_series_def sql_delete_series_def
        sql_delete_series_authors_of_series_def without_series_def)
qed

lemma fold_delete_orphan_series:
  assumes "\<forall>b \<in> set (books x). \<forall>i. series_id b = Some i \<longrightarrow> i \<in> ids (series x)"
    and "\<forall>b \<in> set (books x). \<forall>i. series_id b = Some i \<longrightarrow> i \<notin> ids os"
  shows "fold delete_orphan_series os x = without_series (ids os) x"
  using assms
proof (induction os arbitrary: x)
  case Nil
  then show ?case by simp
next
  case (Cons s os)
  let ?y = "without_series {row_id s} x"
  have 1: "delete_orphan_series s x = ?y"
    using Cons.prems(1) by (rule delete_orphan_series_eq)
  have "\<forall>b \<in> set (books x). series_id b \<noteq> Some (row_id s)"
    using Cons.prems(2) by force
  then have bk: "books ?y = books x"
    by (simp add: without_series_def map_idI)
  have 2: "\<forall>b \<in> set (books ?y). \<forall>i. series_id b = Some i \<longrightarrow> i \<in> ids (series ?y)"
    using Cons.prems unfolding bk by (auto simp: without_series_def)
  have 3: "\<forall>b \<in> set (books ?y). \<forall>i. series_id b = Some i \<longrightarrow> i \<notin> ids os"
    using Cons.prems(2) unfolding bk by auto
  have "fold delete_orphan_series os ?y = without_series (ids os) ?y"
    using 2 3 by (rule Cons.IH)
  then show ?case
    by (simp add: 1 without_series_twice)
qed


lemma for_each_delete_publishers:
  assumes "\<forall>b \<in> set (books x). publisher_id b \<notin> ids ps"
  shows "for_each (\<lambda>p y. bind_e (sql_delete_publisher (row_id p) y) (\<lambda>r. Inr (snd r))) ps x
         = Inr (without_publishers (ids ps) x)"
  using assms
proof (induction ps arbitrary: x)
  case Nil
  then show ?case by simp
next
  case (Cons p ps)
  have nb: "\<not> (\<exists>b \<in> set (books x). publisher_id b = row_id p)"
    using Cons.prems by auto
  have 1: "bind_e (sql_delete_publisher (row_id p) x) (\<lambda>r. Inr (snd r))
           = Inr (without_publishers {row_id p} x)"
  proof (cases "row_id p \<in> ids (publishers x)")
    case True
    then show ?thesis
      using nb by (simp add: sql_delete_publisher_def bind_e_def without_publishers_def)
  next
    case False
    then have "filter (\<lambda>r. row_id r \<noteq> row_id p) (publishers x) = publishers x"
      by (intro filter_id_conv) (metis in_idsI)
    then show ?thesis
      using False by (simp add: sql_delete_publisher_def bind_e_def without_publishers_def)
  qed
  have 2: "\<forall>b \<in> set (books (without_publishers {row_id p} x)). publisher_id b \<notin> ids ps"
    using Cons.prems by (simp add: without_publishers_def)
  show ?case
    using Cons.IH [OF 2]
    by (simp add: 1 without_publishers_twice)
qed

subsection \<open>Deleting a book with cascade\<close>

lemma delete_book_statements:
  assumes "find_book b d = Some bk"
  shows "snd (sql_delete_book b (sql_delete_book_topics b (sql_delete_book_genres b
           (sql_delete_book_authors b d)))) = without_book b d"
proof -
  have "b \<in> book_id ` set (books d)"
    using assms find_book_Some by force
  then show ?thesis
    by (intro db_eqI)
      (simp_all add: sql_delete_book_def sql_delete_book_topics_def sql_delete_book_genres_def
        sql_delete_book_authors_def without_book_def)
qed

lemma sole_publisher_book:
  assumes "publisher_book_count p d = 1" and "bk \<in> set (books d)" and "publisher_id bk = p"
    and "y \<in> set (books d)" and "publisher_id y = p"
  shows "y = bk"
  using assms unfolding publisher_book_count_def
  by (intro length_filter_one_unique [where P = "\<lambda>r. publisher_id r = p" and xs = "books d"])
    auto

lemma sole_series_book:
  assumes "series_book_count s d = 1" and "bk \<in> set (books d)" and "series_id bk = Some s"
    and "y \<in> set (books d)" and "series_id y = Some s"
  shows "y = bk"
  using assms unfolding series_book_count_def
  by (intro length_filter_one_unique [where P = "\<lambda>r. series_id r = Some s" and xs = "books d"])
    auto

lemma sole_author_link:
  assumes "author_book_count a d = 1" and "(b, a) \<in> set (book_authors d)"
    and "l \<in> set (book_authors d)" and "snd l = a"
  shows "l = (b, a)"
  using assms unfolding author_book_count_def
  by (intro length_filter_one_unique [where P = "\<lambda>r. snd r = a" and xs = "book_authors d"])
    auto

text \<open>The result of the cascading delete on any state that satisfies the schema.\<close>

lemma delete_book_cascade_result:
  assumes "wf_db d" and "find_book b d = Some bk"
  shows "deleteBook b True d
         = (Inr (),
            without_series (row_id ` set_option (orphanedSeries (checkDeleteImpact b d)))
              (without_publishers
                 (row_id ` set_option (orphanedPublisher (checkDeleteImpact b d)))
                 (without_authors (ids (orphanedAuthors (checkDeleteImpact b d)))
                    (without_book b d))))"
proof -
  let ?oa = "orphaned_authors_query b d"
  let ?op = "orphaned_publisher_query bk d"
  let ?os = "orphaned_series_query bk d"
  let ?d4 = "without_book b d"
  let ?d5 = "without_authors (ids ?oa) ?d4"
  have bk: "bk \<in> set (books d)" "book_id bk = b"
    using assms(2) find_book_Some by auto
  have imp: "orphanedAuthors (checkDeleteImpact b d) = ?oa"
    "orphanedPublisher (checkDeleteImpact b d) = ?op"
    "orphanedSeries (checkDeleteImpact b d) = ?os"
    using assms(2) by (simp_all add: checkDeleteImpact_def Let_def)
  have fk_ba: "\<forall>l \<in> set (book_authors ?d4). snd l \<in> ids (authors ?d4)"
    using assms(1) by (auto simp: wf_db_def links_resolve_def without_book_def)
  have 1: "fold delete_orphan_author ?oa ?d4 = ?d5"
    using fk_ba by (rule fold_delete_orphan_author)
  have bks5: "books ?d5 = filter (\<lambda>r. book_id r \<noteq> b) (books d)"
    by (simp add: without_authors_def without_book_def)
  have 2: "bind_e (sql_delete_publisher (row_id p) ?d5) (\<lambda>r. Inr (snd r))
           = Inr (without_publishers {row_id p} ?d5)" if "?op = Some p" for p
  proof -
    from that have c: "publisher_book_count (publisher_id bk) d = 1"
      and p: "row_id p = publisher_id bk"
      by (auto simp: orphaned_publisher_query_def dest: find_row_Some_id split: if_splits)
    have "\<forall>y \<in> set (books ?d5). publisher_id y \<notin> ids [p]"
      unfolding bks5 using sole_publisher_book [OF c bk(1) refl] bk(2) p by auto
    then have "for_each (\<lambda>p y. bind_e (sql_delete_publisher (row_id p) y) (\<lambda>r. Inr (snd r)))
                 [p] ?d5 = Inr (without_publishers (ids [p]) ?d5)"
      by (rule for_each_delete_publishers)
    then show ?thesis
      by (auto simp: bind_e_def split: sum.splits)
  qed
  have 3: "delete_orphan_series s (without_publishers P ?d5)
           = without_series {row_id s} (without_publishers P ?d5)" for s P
  proof -
    have "\<forall>y \<in> set (books (without_publishers P ?d5)).
            \<forall>i. series_id y = Some i \<longrightarrow> i \<in> ids (series (without_publishers P ?d5))"
      using assms(1)
      by (auto simp: wf_db_def book_fks_ok_def without_publishers_def without_authors_def
          without_book_def)
    then show ?thesis
      by (rule delete_orphan_series_eq)
  qed
  have 4: "cascade_orphans ?oa ?op ?os ?d4
           = Inr (without_series (row_id ` set_option ?os)
                    (without_publishers (row_id ` set_option ?op) ?d5))"
  proof (cases ?op)
    case None
    then show ?thesis
      using 3 [of _ "{}"] by (cases ?os) (simp_all add: cascade_orphans_def 1)
  next
    case (Some p)
    then show ?thesis
      using 2 [OF Some] 3 [of _ "{row_id p}"]
      by (cases ?os) (simp_all add: cascade_orphans_def 1)
  qed
  show ?thesis
    using assms(2)
    by (simp add: deleteBook_def transaction_def delete_book_body_def Let_def
        delete_book_statements [OF assms(2)] imp 4)
qed

text \<open>
  C6. On a state that satisfies the schema, let the delete impact of book \<open>b\<close> consist
  of author \<open>A\<close>, publisher \<open>P\<close> and series \<open>S\<close>. Then \<open>deleteBook\<close> with cascade
  succeeds and leaves every table as it was except for the rows of \<open>b\<close>, \<open>A\<close>, \<open>P\<close>,
  \<open>S\<close>: the book links of \<open>b\<close> and the series links of \<open>A\<close> and of \<open>S\<close> go with them;
  no other author, publisher, series, book, genre, topic or category row is removed or
  changed.
\<close>

theorem cascade_delete_removes_exactly_the_orphans:
  assumes "wf_db d" and "find_book b d = Some bk"
    and "orphanedAuthors (checkDeleteImpact b d) = [A]"
    and "orphanedPublisher (checkDeleteImpact b d) = Some P"
    and "orphanedSeries (checkDeleteImpact b d) = Some S"
  shows "fst (deleteBook b True d) = Inr ()
    \<and> books (snd (deleteBook b True d)) = filter (\<lambda>r. book_id r \<noteq> b) (books d)
    \<and> authors (snd (deleteBook b True d)) = filter (\<lambda>r. row_id r \<noteq> row_id A) (authors d)
    \<and> publishers (snd (deleteBook b True d))
        = filter (\<lambda>r. row_id r \<noteq> row_id P) (publishers d)
    \<and> series (snd (deleteBook b True d)) = filter (\<lambda>r. row_id r \<noteq> row_id S) (series d)
    \<and> genres (snd (deleteBook b True d)) = genres d
    \<and> topics (snd (deleteBook b True d)) = topics d
    \<and> categories (snd (deleteBook b True d)) = categories d
    \<and> book_authors (snd (deleteBook b True d)) = filter (\<lambda>l. fst l \<noteq> b) (book_authors d)
    \<and> book_genres (snd (deleteBook b True d)) = filter (\<lambda>l. fst l \<noteq> b) (book_genres d)
    \<and> book_topics (snd (deleteBook b True d)) = filter (\<lambda>l. fst l \<noteq> b) (book_topics d)
    \<and> series_authors (snd (deleteBook b True d))
        = filter (\<lambda>l. snd l \<noteq> row_id A \<and> fst l \<noteq> row_id S) (series_authors d)"
proof -
  let ?d' = "without_series {row_id S} (without_publishers {row_id P}
               (without_authors {row_id A} (without_book b d)))"
  have res: "deleteBook b True d = (Inr (), ?d')"
    using delete_book_cascade_result [OF assms(1,2)] assms(3,4,5) by simp
  have bk: "bk \<in> set (books d)" "book_id bk = b"
    using assms(2) find_book_Some by auto
  have S: "orphaned_series_query bk d = Some S"
    using assms(2,5) by (simp add: checkDeleteImpact_def Let_def)
  then have sb: "series_id bk = Some (row_id S)" "series_book_count (row_id S) d = 1"
    by (auto simp: orphaned_series_query_def dest: find_row_Some_id
        split: option.splits if_splits)
  have "A \<in> set (orphaned_authors_query b d)"
    using assms(2,3) by (simp add: checkDeleteImpact_def Let_def)
  then have al: "(b, row_id A) \<in> set (book_authors d)" "author_book_count (row_id A) d = 1"
    by (simp_all add: set_orphaned_authors_query)
  have nos: "\<forall>y \<in> set (filter (\<lambda>r. book_id r \<noteq> b) (books d)).
               series_id y \<noteq> Some (row_id S)"
    using sole_series_book [OF sb(2) bk(1) sb(1)] bk(2) by auto
  have "map (\<lambda>y. if series_id y = Some (row_id S) then y\<lparr>series_id := None\<rparr> else y)
          (filter (\<lambda>r. book_id r \<noteq> b) (books d)) = filter (\<lambda>r. book_id r \<noteq> b) (books d)"
    using nos by (intro map_idI) auto
  then have bks: "books ?d' = filter (\<lambda>r. book_id r \<noteq> b) (books d)"
    by (simp add: without_series_def without_publishers_def without_authors_def
        without_book_def)
  have "\<forall>l \<in> set (filter (\<lambda>l. fst l \<noteq> b) (book_authors d)). snd l \<noteq> row_id A"
    using sole_author_link [OF al(2) al(1)] by auto
  then have "filter (\<lambda>l. snd l \<noteq> row_id A) (filter (\<lambda>l. fst l \<noteq> b) (book_authors d))
             = filter (\<lambda>l. fst l \<noteq> b) (book_authors d)"
    by (intro filter_id_conv) blast
  then have bas: "book_authors ?d' = filter (\<lambda>l. fst l \<noteq> b) (book_authors d)"
    by (simp add: without_series_def without_publishers_def without_authors_def
        without_book_def del: filter_filter)
  have sas: "series_authors ?d'
        = filter (\<lambda>l. snd l \<noteq> row_id A \<and> fst l \<noteq> row_id S) (series_authors d)"
    by (auto simp: without_series_def without_publishers_def without_authors_def
        without_book_def intro: filter_cong)
  show ?thesis
    unfolding res fst_conv snd_conv
    using bks bas sas
    by (simp add: without_series_def without_publishers_def without_authors_def
        without_book_def)
qed

theorem cascade_delete_removes_exactly_the_orphans_witness:
  "fst (deleteBook ''X'' True sole_book_db) = Inr ()
   \<and> books (snd (deleteBook ''X'' True sole_book_db)) = []
   \<and> authors (snd (deleteBook ''X'' True sole_book_db)) = []
   \<and> publishers (snd (deleteBook ''X'' True sole_book_db)) = []
   \<and> series (snd (deleteBook ''X'' True sole_book_db)) = []
   \<and> genres (snd (deleteBook ''X'' True sole_book_db)) = [\<lparr>row_id = ''G1'', row_name = ''Fiction''\<rparr>]
   \<and> categories (snd (deleteBook ''X'' True sole_book_db))
       = [\<lparr>row_id = ''C1'', row_name = ''General''\<rparr>]
   \<and> series_authors (snd (deleteBook ''X'' True sole_book_db)) = []"
proof -
  have i: "orphanedAuthors (checkDeleteImpact ''X'' sole_book_db)
             = [\<lparr>row_id = ''A1'', row_name = ''A1''\<rparr>]"
    "orphanedPublisher (checkDeleteImpact ''X'' sole_book_db)
             = Some \<lparr>row_id = ''P1'', row_name = ''P1''\<rparr>"
    "orphanedSeries (checkDeleteImpact ''X'' sole_book_db)
             = Some \<lparr>row_id = ''S1'', row_name = ''S1''\<rparr>"
    by (simp_all add: sole_book_impact)
  show ?thesis
    using cascade_delete_removes_exactly_the_orphans [OF wf_sole_book_db find_book_sole i]
    by (simp add: sole_book_db_def)
qed

subsection \<open>Validity in terms of rows\<close>

lemma isValid_iff:
  "isValid (integrityCheck d) \<longleftrightarrow>
     orphan_authors d = [] \<and> orphan_publishers d = [] \<and> orphan_series d = []
     \<and> series_no_authors d = [] \<and> books_no_publisher d = [] \<and> books_no_category d = []"
  by (simp add: integrityCheck_def Let_def)




lemma series_no_authors_empty_iff:
  "series_no_authors d = [] \<longleftrightarrow>
     (\<forall>s \<in> set (series d). \<exists>l \<in> set (series_authors d). fst l = row_id s)"
  by (simp add: series_no_authors_def filter_empty_conv)


subsection \<open>The schema constraints, one at a time\<close>

lemma wf_dbD:
  assumes "wf_db d"
  shows "distinct (map book_id (books d))" "distinct (map row_id (authors d))"
    "distinct (map row_id (publishers d))" "distinct (map row_id (series d))"
    "distinct (map row_id (genres d))" "distinct (map row_id (topics d))"
    "distinct (map row_id (categories d))"
    "distinct (book_authors d)" "distinct (book_genres d)" "distinct (book_topics d)"
    "distinct (series_authors d)"
    "\<And>b. b \<in> set (books d) \<Longrightarrow> publisher_id b \<in> ids (publishers d)"
    "\<And>b. b \<in> set (books d) \<Longrightarrow> category_id b \<in> ids (categories d)"
    "\<And>b s. b \<in> set (books d) \<Longrightarrow> series_id b = Some s \<Longrightarrow> s \<in> ids (series d) \<and> s \<noteq> []"
    "\<And>l. l \<in> set (book_authors d) \<Longrightarrow> fst l \<in> book_id ` set (books d) \<and> snd l \<in> ids (authors d)"
    "\<And>l. l \<in> set (book_genres d) \<Longrightarrow> fst l \<in> book_id ` set (books d) \<and> snd l \<in> ids (genres d)"
    "\<And>l. l \<in> set (book_topics d) \<Longrightarrow> fst l \<in> book_id ` set (books d) \<and> snd l \<in> ids (topics d)"
    "\<And>l. l \<in> set (series_authors d) \<Longrightarrow> fst l \<in> ids (series d) \<and> snd l \<in> ids (authors d)"
  using assms unfolding wf_db_def links_resolve_def book_fks_ok_def
  by (auto split: option.splits)

lemma wf_dbI:
  assumes "distinct (map book_id (books d))" "distinct (map row_id (authors d))"
    "distinct (map row_id (publishers d))" "distinct (map row_id (series d))"
    "distinct (map row_id (genres d))" "distinct (map row_id (topics d))"
    "distinct (map row_id (categories d))"
    "distinct (book_authors d)" "distinct (book_genres d)" "distinct (book_topics d)"
    "distinct (series_authors d)"
    "\<And>b. b \<in> set (books d) \<Longrightarrow> publisher_id b \<in> ids (publishers d)"
    "\<And>b. b \<in> set (books d) \<Longrightarrow> category_id b \<in> ids (categories d)"
    "\<And>b s. b \<in> set (books d) \<Longrightarrow> series_id b = Some s \<Longrightarrow> s \<in> ids (series d) \<and> s \<noteq> []"
    "\<And>l. l \<in> set (book_authors d) \<Longrightarrow> fst l \<in> book_id ` set (books d) \<and> snd l \<in> ids (authors d)"
    "\<And>l. l \<in> set (book_genres d) \<Longrightarrow> fst l \<in> book_id ` set (books d) \<and> snd l \<in> ids (genres d)"
    "\<And>l. l \<in> set (book_topics d) \<Longrightarrow> fst l \<in> book_id ` set (books d) \<and> snd l \<in> ids (topics d)"
    "\<And>l. l \<in> set (series_authors d) \<Longrightarrow> fst l \<in> ids (series d) \<and> snd l \<in> ids (authors d)"
  shows "wf_db d"
  unfolding wf_db_def links_resolve_def book_fks_ok_def
  using assms by (auto split: option.splits)

subsection \<open>Row removal keeps the schema constraints\<close>





subsection \<open>Loops of junction inserts\<close>

lemma insert_link_Inr_iff:
  "insert_link tbl l lefts rights rows = Inr rows'
   \<longleftrightarrow> l \<notin> set rows \<and> fst l \<in> lefts \<and> snd l \<in> rights \<and> rows' = rows @ [l]"
  by (auto simp: insert_link_def)

text \<open>
  A loop of inserts into one junction table, stated once for the four tables: \<open>g\<close> reads
  the table, \<open>u\<close> writes it, \<open>L\<close> and \<open>R\<close> are the keys its two columns refer to.
\<close>

lemma for_each_links_Inr_iff:
  fixes g :: "db \<Rightarrow> (ident \<times> ident) list" and u :: "(ident \<times> ident) list \<Rightarrow> db \<Rightarrow> db"
  assumes f: "\<And>a x. f a x = bind_e (insert_link tbl (b, a) (L x) (R x) (g x)) (\<lambda>rows. Inr (u rows x))"
    and gu: "\<And>rows x. g (u rows x) = rows"
    and Lu: "\<And>rows x. L (u rows x) = L x"
    and Ru: "\<And>rows x. R (u rows x) = R x"
    and uu: "\<And>r1 r2 x. u r2 (u r1 x) = u r2 x"
    and ug: "\<And>x. u (g x) x = x"
  shows "for_each f as d = Inr d'
         \<longleftrightarrow> (as = [] \<or> b \<in> L d) \<and> distinct as \<and> set as \<subseteq> R d
             \<and> (\<forall>a \<in> set as. (b, a) \<notin> set (g d))
             \<and> d' = u (g d @ map (Pair b) as) d"
proof (induction as arbitrary: d)
  case Nil
  show ?case by (auto simp: ug)
next
  case (Cons a as)
  show ?case
  proof (cases "insert_link tbl (b, a) (L d) (R d) (g d)")
    case (Inl e)
    then have "\<not> ((b, a) \<notin> set (g d) \<and> b \<in> L d \<and> a \<in> R d)"
      using insert_link_Inr_iff [of tbl "(b, a)" "L d" "R d" "g d" "g d @ [(b, a)]"] by auto
    then show ?thesis
      using Inl by (auto simp: f)
  next
    case (Inr rows)
    then have ok: "(b, a) \<notin> set (g d)" "b \<in> L d" "a \<in> R d" and rows: "rows = g d @ [(b, a)]"
      using insert_link_Inr_iff [of tbl "(b, a)" "L d" "R d" "g d" rows] by auto
    let ?x = "u (g d @ [(b, a)]) d"
    have step: "for_each f (a # as) d = for_each f as ?x"
      using Inr by (simp add: f rows)
    have ih: "for_each f as ?x = Inr d'
         \<longleftrightarrow> (as = [] \<or> b \<in> L ?x) \<and> distinct as \<and> set as \<subseteq> R ?x
             \<and> (\<forall>a \<in> set as. (b, a) \<notin> set (g ?x))
             \<and> d' = u (g ?x @ map (Pair b) as) ?x"
      by (rule Cons.IH)
    show ?thesis
      unfolding step ih gu Lu Ru uu using ok by auto
  qed
qed

lemma for_each_book_authors_iff:
  "for_each (sql_insert_book_author b) as d = Inr d'
   \<longleftrightarrow> (as = [] \<or> b \<in> book_id ` set (books d)) \<and> distinct as \<and> set as \<subseteq> ids (authors d)
       \<and> (\<forall>a \<in> set as. (b, a) \<notin> set (book_authors d))
       \<and> d' = d\<lparr>book_authors := book_authors d @ map (Pair b) as\<rparr>"
  by (rule for_each_links_Inr_iff
      [where g = book_authors and u = "\<lambda>rows x. x\<lparr>book_authors := rows\<rparr>"
         and L = "\<lambda>x. book_id ` set (books x)" and R = "\<lambda>x. ids (authors x)"
         and tbl = "''book_authors.book_id, book_authors.author_id''"])
    (simp_all add: sql_insert_book_author_def)

lemma for_each_book_genres_iff:
  "for_each (sql_insert_book_genre b) as d = Inr d'
   \<longleftrightarrow> (as = [] \<or> b \<in> book_id ` set (books d)) \<and> distinct as \<and> set as \<subseteq> ids (genres d)
       \<and> (\<forall>a \<in> set as. (b, a) \<notin> set (book_genres d))
       \<and> d' = d\<lparr>book_genres := book_genres d @ map (Pair b) as\<rparr>"
  by (rule for_each_links_Inr_iff
      [where g = book_genres and u = "\<lambda>rows x. x\<lparr>book_genres := rows\<rparr>"
         and L = "\<lambda>x. book_id ` set (books x)" and R = "\<lambda>x. ids (genres x)"
         and tbl = "''book_genres.book_id, book_genres.genre_id''"])
    (simp_all add: sql_insert_book_genre_def)

lemma for_each_book_topics_iff:
  "for_each (sql_insert_book_topic b) as d = Inr d'
   \<longleftrightarrow> (as = [] \<or> b \<in> book_id ` set (books d)) \<and> distinct as \<and> set as \<subseteq> ids (topics d)
       \<and> (\<forall>a \<in> set as. (b, a) \<notin> set (book_topics d))
       \<and> d' = d\<lparr>book_topics := book_topics d @ map (Pair b) as\<rparr>"
  by (rule for_each_links_Inr_iff
      [where g = book_topics and u = "\<lambda>rows x. x\<lparr>book_topics := rows\<rparr>"
         and L = "\<lambda>x. book_id ` set (books x)" and R = "\<lambda>x. ids (topics x)"
         and tbl = "''book_topics.book_id, book_topics.topic_id''"])
    (simp_all add: sql_insert_book_topic_def)

lemma for_each_series_authors_iff:
  "for_each (sql_insert_series_author s) as d = Inr d'
   \<longleftrightarrow> (as = [] \<or> s \<in> ids (series d)) \<and> distinct as \<and> set as \<subseteq> ids (authors d)
       \<and> (\<forall>a \<in> set as. (s, a) \<notin> set (series_authors d))
       \<and> d' = d\<lparr>series_authors := series_authors d @ map (Pair s) as\<rparr>"
  by (rule for_each_links_Inr_iff
      [where g = series_authors and u = "\<lambda>rows x. x\<lparr>series_authors := rows\<rparr>"
         and L = "\<lambda>x. ids (series x)" and R = "\<lambda>x. ids (authors x)"
         and tbl = "''series_authors.series_id, series_authors.author_id''"])
    (simp_all add: sql_insert_series_author_def)

subsection \<open>When an insert succeeds\<close>

lemma insert_row_Inr_iff:
  "insert_row tbl r rows = Inr rows' \<longleftrightarrow> row_id r \<notin> ids rows \<and> rows' = rows @ [r]"
  by (auto simp: insert_row_def)

lemma insert_unique_name_row_Inr_iff:
  "insert_unique_name_row tbl r rows = Inr rows'
   \<longleftrightarrow> row_id r \<notin> ids rows \<and> row_name r \<notin> row_name ` set rows \<and> rows' = rows @ [r]"
  by (auto simp: insert_unique_name_row_def)

lemma bind_e_Inr_iff: "bind_e r f = Inr y \<longleftrightarrow> (\<exists>x. r = Inr x \<and> f x = Inr y)"
  by (cases r) simp_all

lemma sql_insert_author_Inr_iff:
  "sql_insert_author r d = Inr d'
   \<longleftrightarrow> row_id r \<notin> ids (authors d) \<and> d' = d\<lparr>authors := authors d @ [r]\<rparr>"
  by (auto simp: sql_insert_author_def bind_e_Inr_iff insert_row_Inr_iff)

lemma sql_insert_publisher_Inr_iff:
  "sql_insert_publisher r d = Inr d'
   \<longleftrightarrow> row_id r \<notin> ids (publishers d) \<and> d' = d\<lparr>publishers := publishers d @ [r]\<rparr>"
  by (auto simp: sql_insert_publisher_def bind_e_Inr_iff insert_row_Inr_iff)

lemma sql_insert_series_Inr_iff:
  "sql_insert_series r d = Inr d'
   \<longleftrightarrow> row_id r \<notin> ids (series d) \<and> d' = d\<lparr>series := series d @ [r]\<rparr>"
  by (auto simp: sql_insert_series_def bind_e_Inr_iff insert_row_Inr_iff)

lemma sql_insert_genre_Inr_iff:
  "sql_insert_genre r d = Inr d'
   \<longleftrightarrow> row_id r \<notin> ids (genres d) \<and> row_name r \<notin> row_name ` set (genres d)
       \<and> d' = d\<lparr>genres := genres d @ [r]\<rparr>"
  by (auto simp: sql_insert_genre_def bind_e_Inr_iff insert_unique_name_row_Inr_iff)

lemma sql_insert_topic_Inr_iff:
  "sql_insert_topic r d = Inr d'
   \<longleftrightarrow> row_id r \<notin> ids (topics d) \<and> row_name r \<notin> row_name ` set (topics d)
       \<and> d' = d\<lparr>topics := topics d @ [r]\<rparr>"
  by (auto simp: sql_insert_topic_def bind_e_Inr_iff insert_unique_name_row_Inr_iff)

lemma sql_insert_category_Inr_iff:
  "sql_insert_category r d = Inr d'
   \<longleftrightarrow> row_id r \<notin> ids (categories d) \<and> row_name r \<notin> row_name ` set (categories d)
       \<and> d' = d\<lparr>categories := categories d @ [r]\<rparr>"
  by (auto simp: sql_insert_category_def bind_e_Inr_iff insert_unique_name_row_Inr_iff)

lemma sql_insert_book_Inr_iff:
  "sql_insert_book b d = Inr d'
   \<longleftrightarrow> book_id b \<notin> book_id ` set (books d)
       \<and> book_fks_ok (publisher_id b) (series_id b) (category_id b) d
       \<and> d' = d\<lparr>books := books d @ [b]\<rparr>"
  by (auto simp: sql_insert_book_def)

lemma transaction_Inr_iff:
  "transaction body d = (Inr v, d') \<longleftrightarrow> body d = Inr (v, d')"
  by (auto simp: transaction_def split: sum.splits)

lemma transaction_Inl:
  "transaction body d = (Inl e, d') \<Longrightarrow> d' = d"
  by (auto simp: transaction_def split: sum.splits)

lemma transaction_cases:
  obtains (ok) v d' where "transaction body d = (Inr v, d')" "body d = Inr (v, d')"
  | (failed) e where "transaction body d = (Inl e, d)" "body d = Inl e"
  by (cases "body d") (auto simp: transaction_def)

text \<open>A series is created exactly when its identifier is new and its author list fits.\<close>

lemma create_series_Inr_iff:
  assumes "wf_db d"
  shows "create_series uuid i n as d = (Inr (), d')
   \<longleftrightarrow> id_or_uuid i uuid \<notin> ids (series d) \<and> distinct as \<and> set as \<subseteq> ids (authors d)
       \<and> d' = d\<lparr>series := series d @ [\<lparr>row_id = id_or_uuid i uuid, row_name = n\<rparr>],
                series_authors := series_authors d @ map (Pair (id_or_uuid i uuid)) as\<rparr>"
proof -
  let ?s = "id_or_uuid i uuid"
  have nol: "?s \<notin> ids (series d) \<Longrightarrow> \<forall>a \<in> set as. (?s, a) \<notin> set (series_authors d)"
    using wf_dbD(18) [OF assms] by force
  show ?thesis
    unfolding create_series_def transaction_Inr_iff create_series_body_def Let_def
      bind_e_Inr_iff sql_insert_series_Inr_iff for_each_series_authors_iff
    using nol by auto
qed

text \<open>What a book record needs from the store to be created.\<close>

lemma create_book_Inr_iff:
  assumes "wf_db d"
  shows "create_book uuid input d = (Inr (), d')
   \<longleftrightarrow> id_or_uuid (inputId input) uuid \<notin> book_id ` set (books d)
       \<and> book_fks_ok (publisherId input) (series_or_null (seriesId input)) (categoryId input) d
       \<and> distinct (authorIds input) \<and> set (authorIds input) \<subseteq> ids (authors d)
       \<and> distinct (genreIds input) \<and> set (genreIds input) \<subseteq> ids (genres d)
       \<and> distinct (topicIds input) \<and> set (topicIds input) \<subseteq> ids (topics d)
       \<and> d' = d\<lparr>books := books d @ [\<lparr>book_id = id_or_uuid (inputId input) uuid,
                    title = inputTitle input, publisher_id = publisherId input,
                    series_id = series_or_null (seriesId input),
                    category_id = categoryId input\<rparr>],
                book_authors := book_authors d
                    @ map (Pair (id_or_uuid (inputId input) uuid)) (authorIds input),
                book_genres := book_genres d
                    @ map (Pair (id_or_uuid (inputId input) uuid)) (genreIds input),
                book_topics := book_topics d
                    @ map (Pair (id_or_uuid (inputId input) uuid)) (topicIds input)\<rparr>"
proof -
  let ?b = "id_or_uuid (inputId input) uuid"
  have nol: "?b \<notin> book_id ` set (books d) \<Longrightarrow>
      (\<forall>a. (?b, a) \<notin> set (book_authors d)) \<and> (\<forall>a. (?b, a) \<notin> set (book_genres d))
      \<and> (\<forall>a. (?b, a) \<notin> set (book_topics d))"
    using wf_dbD(15,16,17) [OF assms] by force
  show ?thesis
    unfolding create_book_def transaction_Inr_iff create_book_body_def Let_def
      bind_e_Inr_iff sql_insert_book_Inr_iff for_each_book_authors_iff
      for_each_book_genres_iff for_each_book_topics_iff
    using nol by auto
qed

subsection \<open>Inserts keep the schema constraints\<close>

lemma wf_add_author:
  assumes "wf_db d" and "row_id r \<notin> ids (authors d)"
  shows "wf_db (d\<lparr>authors := authors d @ [r]\<rparr>)"
  by (rule wf_dbI) (use wf_dbD [OF assms(1)] assms(2) in \<open>auto simp: ids_def\<close>)

lemma wf_add_publisher:
  assumes "wf_db d" and "row_id r \<notin> ids (publishers d)"
  shows "wf_db (d\<lparr>publishers := publishers d @ [r]\<rparr>)"
  by (rule wf_dbI) (use wf_dbD [OF assms(1)] assms(2) in \<open>auto simp: ids_def\<close>)

lemma wf_add_genre:
  assumes "wf_db d" and "row_id r \<notin> ids (genres d)"
  shows "wf_db (d\<lparr>genres := genres d @ [r]\<rparr>)"
  by (rule wf_dbI) (use wf_dbD [OF assms(1)] assms(2) in \<open>auto simp: ids_def\<close>)

lemma wf_add_topic:
  assumes "wf_db d" and "row_id r \<notin> ids (topics d)"
  shows "wf_db (d\<lparr>topics := topics d @ [r]\<rparr>)"
  by (rule wf_dbI) (use wf_dbD [OF assms(1)] assms(2) in \<open>auto simp: ids_def\<close>)

lemma wf_add_category:
  assumes "wf_db d" and "row_id r \<notin> ids (categories d)"
  shows "wf_db (d\<lparr>categories := categories d @ [r]\<rparr>)"
  by (rule wf_dbI) (use wf_dbD [OF assms(1)] assms(2) in \<open>auto simp: ids_def\<close>)

lemma wf_add_series:
  assumes "wf_db d" and "s \<notin> ids (series d)" and "distinct as" and "set as \<subseteq> ids (authors d)"
  shows "wf_db (d\<lparr>series := series d @ [\<lparr>row_id = s, row_name = n\<rparr>],
                  series_authors := series_authors d @ map (Pair s) as\<rparr>)"
proof (rule wf_dbI)
  note w = wf_dbD [OF assms(1)]
  let ?d' = "d\<lparr>series := series d @ [\<lparr>row_id = s, row_name = n\<rparr>],
                  series_authors := series_authors d @ map (Pair s) as\<rparr>"
  show "distinct (map row_id (series ?d'))"
    using w(4) assms(2) by (auto simp: ids_def)
  show "distinct (series_authors ?d')"
    using w(11) w(18) assms(2,3) by (force simp: distinct_map inj_on_def)
  show "\<And>l. l \<in> set (series_authors ?d') \<Longrightarrow>
          fst l \<in> ids (series ?d') \<and> snd l \<in> ids (authors ?d')"
    using w(18) assms(4) by auto
  show "\<And>b i. b \<in> set (books ?d') \<Longrightarrow> series_id b = Some i \<Longrightarrow>
          i \<in> ids (series ?d') \<and> i \<noteq> []"
    using w(14) by auto
qed (use wf_dbD [OF assms(1)] in auto)

lemma wf_add_book:
  assumes "wf_db d" and "b \<notin> book_id ` set (books d)" and "book_fks_ok p s c d"
    and "s \<noteq> Some []"
    and "distinct as" and "set as \<subseteq> ids (authors d)"
    and "distinct gs" and "set gs \<subseteq> ids (genres d)"
    and "distinct ts" and "set ts \<subseteq> ids (topics d)"
  shows "wf_db (d\<lparr>books := books d @ [\<lparr>book_id = b, title = t, publisher_id = p,
                     series_id = s, category_id = c\<rparr>],
                  book_authors := book_authors d @ map (Pair b) as,
                  book_genres := book_genres d @ map (Pair b) gs,
                  book_topics := book_topics d @ map (Pair b) ts\<rparr>)"
proof (rule wf_dbI)
  note w = wf_dbD [OF assms(1)]
  let ?d' = "d\<lparr>books := books d @ [\<lparr>book_id = b, title = t, publisher_id = p,
                     series_id = s, category_id = c\<rparr>],
                  book_authors := book_authors d @ map (Pair b) as,
                  book_genres := book_genres d @ map (Pair b) gs,
                  book_topics := book_topics d @ map (Pair b) ts\<rparr>"
  show "distinct (map book_id (books ?d'))"
    using w(1) assms(2) by auto
  show "distinct (book_authors ?d')"
    using w(8) w(15) assms(2,5) by (force simp: distinct_map inj_on_def)
  show "distinct (book_genres ?d')"
    using w(9) w(16) assms(2,7) by (force simp: distinct_map inj_on_def)
  show "distinct (book_topics ?d')"
    using w(10) w(17) assms(2,9) by (force simp: distinct_map inj_on_def)
  show "\<And>x. x \<in> set (books ?d') \<Longrightarrow> publisher_id x \<in> ids (publishers ?d')"
    using w(12) assms(3) by (auto simp: book_fks_ok_def)
  show "\<And>x. x \<in> set (books ?d') \<Longrightarrow> category_id x \<in> ids (categories ?d')"
    using w(13) assms(3) by (auto simp: book_fks_ok_def)
  show "\<And>x i. x \<in> set (books ?d') \<Longrightarrow> series_id x = Some i \<Longrightarrow>
          i \<in> ids (series ?d') \<and> i \<noteq> []"
    using w(14) assms(3,4) by (auto simp: book_fks_ok_def)
  show "\<And>l. l \<in> set (book_authors ?d') \<Longrightarrow>
          fst l \<in> book_id ` set (books ?d') \<and> snd l \<in> ids (authors ?d')"
    using w(15) assms(6) by auto
  show "\<And>l. l \<in> set (book_genres ?d') \<Longrightarrow>
          fst l \<in> book_id ` set (books ?d') \<and> snd l \<in> ids (genres ?d')"
    using w(16) assms(8) by auto
  show "\<And>l. l \<in> set (book_topics ?d') \<Longrightarrow>
          fst l \<in> book_id ` set (books ?d') \<and> snd l \<in> ids (topics ?d')"
    using w(17) assms(10) by auto
qed (use wf_dbD [OF assms(1)] in auto)

lemma series_or_null_not_empty: "series_or_null s \<noteq> Some []"
  by (simp add: series_or_null_def truthy_def split: option.splits)

lemma wf_create_series:
  assumes "wf_db d"
  shows "wf_db (snd (create_series uuid i n as d))"
proof (cases rule: transaction_cases [of "create_series_body uuid i n as" d])
  case (ok v d')
  then have eq: "create_series uuid i n as d = (Inr (), d')"
    by (simp add: create_series_def)
  then have "wf_db d'"
    using assms by (auto simp: create_series_Inr_iff [OF assms] intro!: wf_add_series)
  then show ?thesis by (simp add: eq)
next
  case (failed e)
  then show ?thesis using assms by (simp add: create_series_def)
qed

lemma wf_create_book:
  assumes "wf_db d"
  shows "wf_db (snd (create_book uuid input d))"
proof (cases rule: transaction_cases [of "create_book_body uuid input" d])
  case (ok v d')
  then have eq: "create_book uuid input d = (Inr (), d')"
    by (simp add: create_book_def)
  then have "wf_db d'"
    using assms series_or_null_not_empty [of "seriesId input"]
    by (auto simp: create_book_Inr_iff [OF assms] intro!: wf_add_book)
  then show ?thesis by (simp add: eq)
next
  case (failed e)
  then show ?thesis using assms by (simp add: create_book_def)
qed

subsection \<open>The orphan sweep\<close>

lemma ids_orphan_authors:
  "ids (orphan_authors d) = {a \<in> ids (authors d). \<forall>l \<in> set (book_authors d). snd l \<noteq> a}"
  by (auto simp: orphan_authors_def ids_def)

lemma ids_orphan_publishers:
  "ids (orphan_publishers d)
   = {p \<in> ids (publishers d). \<forall>b \<in> set (books d). publisher_id b \<noteq> p}"
  by (auto simp: orphan_publishers_def ids_def)

lemma ids_orphan_series:
  "ids (orphan_series d)
   = {s \<in> ids (series d). \<forall>b \<in> set (books d). series_id b \<noteq> Some s}"
  by (auto simp: orphan_series_def ids_def)


lemma swept_tables [simp]:
  "authors (swept d) = filter (\<lambda>r. row_id r \<notin> ids (orphan_authors d)) (authors d)"
  "publishers (swept d) = filter (\<lambda>r. row_id r \<notin> ids (orphan_publishers d)) (publishers d)"
  "series (swept d) = filter (\<lambda>r. row_id r \<notin> ids (orphan_series d)) (series d)"
  "genres (swept d) = genres d" "topics (swept d) = topics d"
  "categories (swept d) = categories d"
  "book_authors (swept d) = book_authors d"
  "book_genres (swept d) = book_genres d" "book_topics (swept d) = book_topics d"
  "series_authors (swept d)
     = filter (\<lambda>l. fst l \<notin> ids (orphan_series d) \<and> snd l \<notin> ids (orphan_authors d))
         (series_authors d)"
proof -
  have "filter (\<lambda>l. snd l \<notin> ids (orphan_authors d)) (book_authors d) = book_authors d"
    by (intro filter_id_conv) (auto simp: ids_orphan_authors)
  then show "book_authors (swept d) = book_authors d"
    by (simp add: swept_def without_series_def without_publishers_def without_authors_def)
  show "series_authors (swept d)
     = filter (\<lambda>l. fst l \<notin> ids (orphan_series d) \<and> snd l \<notin> ids (orphan_authors d))
         (series_authors d)"
    by (auto simp: swept_def without_series_def without_publishers_def without_authors_def
        intro: filter_cong)
qed (simp_all add: swept_def without_series_def without_publishers_def without_authors_def)

lemma cleanup_orphans_result:
  assumes "wf_db d"
  shows "cleanupOrphans d
         = (Inr \<lparr>deletedAuthors = map row_name (orphan_authors d),
                 deletedPublishers = map row_name (orphan_publishers d),
                 deletedSeries = map row_name (orphan_series d)\<rparr>, swept d)"
proof -
  note w = wf_dbD [OF assms]
  let ?d1 = "without_authors (ids (orphan_authors d)) d"
  let ?d2 = "without_publishers (ids (orphan_publishers d)) ?d1"
  have 1: "fold delete_orphan_author (orphan_authors d) d = ?d1"
    using w(15) by (intro fold_delete_orphan_author) auto
  have op: "orphan_publishers ?d1 = orphan_publishers d"
    by (simp add: orphan_publishers_def without_authors_def)
  have "\<forall>b \<in> set (books ?d1). publisher_id b \<notin> ids (orphan_publishers d)"
    by (auto simp: ids_orphan_publishers without_authors_def)
  then have 2: "for_each (\<lambda>p x. bind_e (sql_delete_publisher (row_id p) x) (\<lambda>r. Inr (snd r)))
                  (orphan_publishers d) ?d1 = Inr ?d2"
    by (rule for_each_delete_publishers)
  have os: "orphan_series ?d2 = orphan_series d"
    by (simp add: orphan_series_def without_authors_def without_publishers_def)
  have "\<forall>b \<in> set (books ?d2). \<forall>i. series_id b = Some i \<longrightarrow> i \<in> ids (series ?d2)"
    using w(14) by (auto simp: without_authors_def without_publishers_def)
  moreover have "\<forall>b \<in> set (books ?d2). \<forall>i. series_id b = Some i
                   \<longrightarrow> i \<notin> ids (orphan_series d)"
    by (auto simp: ids_orphan_series without_authors_def without_publishers_def)
  ultimately have 3: "fold delete_orphan_series (orphan_series d) ?d2
                      = without_series (ids (orphan_series d)) ?d2"
    by (rule fold_delete_orphan_series)
  show ?thesis
    by (simp add: cleanupOrphans_def transaction_def cleanup_orphans_body_def Let_def
        1 op 2 os 3 swept_def)
qed



lemma swept_id:
  assumes "orphan_authors d = []" "orphan_publishers d = []" "orphan_series d = []"
  shows "swept d = d"
  by (simp add: swept_def assms)

subsection \<open>Validity after a book is deleted\<close>




subsection \<open>Updating a book when nothing is cascaded\<close>


lemma length_filter_pos_iff: "0 < length (filter P xs) \<longleftrightarrow> (\<exists>x \<in> set xs. P x)"
  by (induction xs) auto





subsection \<open>The import loops keep the schema constraints\<close>

lemma fold_preserves:
  assumes "\<And>x s. P s \<Longrightarrow> P (f x s)" and "P s"
  shows "P (fold f xs s)"
  using assms(2) by (induction xs arbitrary: s) (simp_all add: assms(1))

lemma store_push_error [simp]: "store (push_error m st) = store st"
  by (simp add: push_error_def)

lemma import_row_preserves:
  assumes "\<And>u i n d d'. P d \<Longrightarrow> create u i n d = Inr d' \<Longrightarrow> P d'" and "P (store st)"
  shows "P (store (import_row kind table create count gen r st))"
proof (cases "find_row (row_id r) (table (store st))")
  case (Some x)
  then show ?thesis using assms(2) by (simp add: import_row_def)
next
  case None
  show ?thesis
  proof (cases "create (gen (drawn st)) (Some (row_id r)) (row_name r) (store st)")
    case (Inl e)
    then show ?thesis using None assms(2) by (simp add: import_row_def)
  next
    case (Inr d')
    then have "P d'" using assms by blast
    then show ?thesis using None Inr by (simp add: import_row_def)
  qed
qed

text \<open>
  The constraints together with \<open>every series has an author\<close>, the part of validity
  that no orphan sweep restores.
\<close>

lemma import_category_keeps:
  assumes "wf_db (store st) \<and> series_no_authors (store st) = []"
  shows "wf_db (store (import_category gen r st))
         \<and> series_no_authors (store (import_category gen r st)) = []"
  unfolding import_category_def
  by (rule import_row_preserves [where P = "\<lambda>d. wf_db d \<and> series_no_authors d = []", OF _ assms])
    (auto simp: create_category_def sql_insert_category_Inr_iff series_no_authors_def
      intro: wf_add_category)

lemma import_author_keeps:
  assumes "wf_db (store st) \<and> series_no_authors (store st) = []"
  shows "wf_db (store (import_author gen r st))
         \<and> series_no_authors (store (import_author gen r st)) = []"
  unfolding import_author_def
  by (rule import_row_preserves [where P = "\<lambda>d. wf_db d \<and> series_no_authors d = []", OF _ assms])
    (auto simp: create_author_def sql_insert_author_Inr_iff series_no_authors_def
      intro: wf_add_author)

lemma import_publisher_keeps:
  assumes "wf_db (store st) \<and> series_no_authors (store st) = []"
  shows "wf_db (store (import_publisher gen r st))
         \<and> series_no_authors (store (import_publisher gen r st)) = []"
  unfolding import_publisher_def
  by (rule import_row_preserves [where P = "\<lambda>d. wf_db d \<and> series_no_authors d = []", OF _ assms])
    (auto simp: create_publisher_def sql_insert_publisher_Inr_iff series_no_authors_def
      intro: wf_add_publisher)

lemma import_genre_keeps:
  assumes "wf_db (store st) \<and> series_no_authors (store st) = []"
  shows "wf_db (store (import_genre gen r st))
         \<and> series_no_authors (store (import_genre gen r st)) = []"
  unfolding import_genre_def
  by (rule import_row_preserves [where P = "\<lambda>d. wf_db d \<and> series_no_authors d = []", OF _ assms])
    (auto simp: create_genre_def sql_insert_genre_Inr_iff series_no_authors_def
      intro: wf_add_genre)

lemma import_topic_keeps:
  assumes "wf_db (store st) \<and> series_no_authors (store st) = []"
  shows "wf_db (store (import_topic gen r st))
         \<and> series_no_authors (store (import_topic gen r st)) = []"
  unfolding import_topic_def
  by (rule import_row_preserves [where P = "\<lambda>d. wf_db d \<and> series_no_authors d = []", OF _ assms])
    (auto simp: create_topic_def sql_insert_topic_Inr_iff series_no_authors_def
      intro: wf_add_topic)

lemma create_series_cases:
  assumes "wf_db d"
  obtains (created) "id_or_uuid i uuid \<notin> ids (series d)" "distinct as"
      "set as \<subseteq> ids (authors d)"
      "create_series uuid i n as d
       = (Inr (), d\<lparr>series := series d @ [\<lparr>row_id = id_or_uuid i uuid, row_name = n\<rparr>],
                     series_authors := series_authors d @ map (Pair (id_or_uuid i uuid)) as\<rparr>)"
  | (failed) e where "create_series uuid i n as d = (Inl e, d)"
      "\<not> (id_or_uuid i uuid \<notin> ids (series d) \<and> distinct as \<and> set as \<subseteq> ids (authors d))"
proof (cases rule: transaction_cases [of "create_series_body uuid i n as" d])
  case (ok v d')
  then have eq: "create_series uuid i n as d = (Inr (), d')"
    by (simp add: create_series_def)
  then show ?thesis
    using created create_series_Inr_iff [OF assms, of uuid i n as d'] by simp
next
  case (failed e)
  then have eq: "create_series uuid i n as d = (Inl e, d)"
    by (simp add: create_series_def)
  then have "\<not> (id_or_uuid i uuid \<notin> ids (series d) \<and> distinct as \<and> set as \<subseteq> ids (authors d))"
    using create_series_Inr_iff [OF assms, of uuid i n as] by auto
  with eq show ?thesis by (rule that(2))
qed


lemma create_series_ok:
  assumes "wf_db d" and "id_or_uuid i uuid \<notin> ids (series d)" and "distinct as"
    and "set as \<subseteq> ids (authors d)"
  shows "create_series uuid i n as d
       = (Inr (), d\<lparr>series := series d @ [\<lparr>row_id = id_or_uuid i uuid, row_name = n\<rparr>],
                     series_authors := series_authors d @ map (Pair (id_or_uuid i uuid)) as\<rparr>)"
  using assms(2,3,4) by (simp add: create_series_Inr_iff [OF assms(1)])

lemma create_series_fail:
  assumes "wf_db d"
    and "\<not> (id_or_uuid i uuid \<notin> ids (series d) \<and> distinct as \<and> set as \<subseteq> ids (authors d))"
  shows "\<exists>e. create_series uuid i n as d = (Inl e, d)"
  by (rule create_series_cases [OF assms(1), of i uuid as n]) (use assms(2) in auto)

lemma create_book_failed:
  assumes "fst (create_book uuid input d) \<noteq> Inr ()"
  shows "snd (create_book uuid input d) = d"
proof (cases rule: transaction_cases [of "create_book_body uuid input" d])
  case (ok v d')
  then show ?thesis using assms by (simp add: create_book_def)
next
  case (failed e)
  then show ?thesis by (simp add: create_book_def)
qed

lemma import_series_keeps:
  assumes "wf_db (store st) \<and> series_no_authors (store st) = []"
  shows "wf_db (store (import_series gen s st))
         \<and> series_no_authors (store (import_series gen s st)) = []"
proof (cases "find_row (rec_id s) (series (store st)) = None \<and> rec_authors s \<noteq> []")
  case False
  then show ?thesis using assms by (auto simp: import_series_def Let_def split: option.splits)
next
  case True
  have wf: "wf_db (store st)" using assms by simp
  let ?i = "id_or_uuid (Some (rec_id s)) (gen (drawn st))"
  let ?as = "map row_id (rec_authors s)"
  show ?thesis
  proof (cases "?i \<notin> ids (series (store st)) \<and> distinct ?as
                \<and> set ?as \<subseteq> ids (authors (store st))")
    case ok: True
    let ?d' = "(store st)\<lparr>series := series (store st) @ [\<lparr>row_id = ?i, row_name = rec_name s\<rparr>],
                 series_authors := series_authors (store st) @ map (Pair ?i) ?as\<rparr>"
    have cr: "create_series (gen (drawn st)) (Some (rec_id s)) (rec_name s) ?as (store st)
              = (Inr (), ?d')"
      using ok by (intro create_series_ok [OF wf]) simp_all
    have st: "store (import_series gen s st) = ?d'"
      using True cr by (simp add: import_series_def)
    have "wf_db ?d'"
      using wf ok by (intro wf_add_series) simp_all
    moreover have "series_no_authors ?d' = []"
      using assms True
      by (cases "rec_authors s")
        (auto simp: series_no_authors_empty_iff)
    ultimately show ?thesis by (simp only: st)
  next
    case False
    then obtain e where
      "create_series (gen (drawn st)) (Some (rec_id s)) (rec_name s) ?as (store st)
       = (Inl e, store st)"
      using create_series_fail [OF wf] by blast
    then show ?thesis using True assms by (simp add: import_series_def)
  qed
qed

lemma import_book_keeps:
  assumes "wf_db (store st) \<and> series_no_authors (store st) = []"
  shows "wf_db (store (import_book gen b st))
         \<and> series_no_authors (store (import_book gen b st)) = []"
proof (cases "find_book (exp_id b) (store st)")
  case (Some x)
  then show ?thesis using assms by (simp add: import_book_def)
next
  case None
  have wf: "wf_db (store st)" using assms by simp
  let ?r = "create_book (gen (drawn st)) (book_input_of b) (store st)"
  have st: "store (import_book gen b st) = snd ?r"
    using None by (cases ?r; cases "fst ?r") (auto simp: import_book_def)
  have 1: "wf_db (snd ?r)" using wf by (rule wf_create_book)
  have 2: "series_no_authors (snd ?r) = []"
  proof (cases "fst ?r = Inr ()")
    case True
    then have "?r = (Inr (), snd ?r)" by (metis prod.collapse)
    then have "series (snd ?r) = series (store st)
               \<and> series_authors (snd ?r) = series_authors (store st)"
      unfolding create_book_Inr_iff [OF wf] by simp
    then show ?thesis
      using assms by (simp add: series_no_authors_def)
  next
    case False
    then show ?thesis using assms create_book_failed by simp
  qed
  from 1 2 show ?thesis by (simp only: st)
qed

lemma import_records_keeps:
  assumes "wf_db (store st) \<and> series_no_authors (store st) = []"
  shows "wf_db (store (import_records gen data st))
         \<and> series_no_authors (store (import_records gen data st)) = []"
  unfolding import_records_def
  by (intro fold_preserves [where P = "\<lambda>st. wf_db (store st) \<and> series_no_authors (store st) = []"]
      import_book_keeps import_series_keeps import_topic_keeps import_genre_keeps
      import_publisher_keeps import_author_keeps import_category_keeps assms)

subsection \<open>Each call keeps a valid store valid\<close>



subsection \<open>Deleting a book without cascade\<close>











lemma import_row_wf:
  "wf_db (store st) \<Longrightarrow> wf_db (store (import_category gen r st))"
  "wf_db (store st) \<Longrightarrow> wf_db (store (import_author gen r st))"
  "wf_db (store st) \<Longrightarrow> wf_db (store (import_publisher gen r st))"
  "wf_db (store st) \<Longrightarrow> wf_db (store (import_genre gen r st))"
  "wf_db (store st) \<Longrightarrow> wf_db (store (import_topic gen r st))"
  unfolding import_category_def import_author_def import_publisher_def import_genre_def
    import_topic_def
  by (erule import_row_preserves [where P = wf_db, rotated];
      auto simp: create_category_def sql_insert_category_Inr_iff create_author_def
        sql_insert_author_Inr_iff create_publisher_def sql_insert_publisher_Inr_iff
        create_genre_def sql_insert_genre_Inr_iff create_topic_def sql_insert_topic_Inr_iff
      intro: wf_add_category wf_add_author wf_add_publisher wf_add_genre wf_add_topic)+

lemma import_series_wf: "wf_db (store st) \<Longrightarrow> wf_db (store (import_series gen s st))"
proof -
  assume wf: "wf_db (store st)"
  have "store (import_series gen s st) = store st
        \<or> store (import_series gen s st)
           = snd (create_series (gen (drawn st)) (Some (rec_id s)) (rec_name s)
                    (map row_id (rec_authors s)) (store st))"
    by (auto simp: import_series_def Let_def split: option.splits prod.splits sum.splits)
  then show ?thesis using wf wf_create_series [OF wf] by auto
qed

lemma import_book_wf: "wf_db (store st) \<Longrightarrow> wf_db (store (import_book gen b st))"
proof -
  assume wf: "wf_db (store st)"
  have "store (import_book gen b st) = store st
        \<or> store (import_book gen b st)
           = snd (create_book (gen (drawn st)) (book_input_of b) (store st))"
    by (auto simp: import_book_def split: option.splits prod.splits sum.splits)
  then show ?thesis using wf wf_create_book [OF wf] by auto
qed

lemma cleanup_messages_empty_iff:
  "cleanup_messages c = []
   \<longleftrightarrow> deletedAuthors c = [] \<and> deletedPublishers c = [] \<and> deletedSeries c = []"
  by (auto simp: cleanup_messages_def)

lemma import_success_store:
  assumes wf: "wf_db d" and ok: "success (fst (importFromJson gen data d))"
  shows "snd (importFromJson gen data d)
           = store (import_records gen data \<lparr>drawn = 0, res = initial_result, store = d\<rparr>)
    \<and> orphan_authors (snd (importFromJson gen data d)) = []
    \<and> orphan_publishers (snd (importFromJson gen data d)) = []
    \<and> orphan_series (snd (importFromJson gen data d)) = []
    \<and> errors (res (import_records gen data \<lparr>drawn = 0, res = initial_result, store = d\<rparr>))
        = []"
proof -
  let ?st = "import_records gen data \<lparr>drawn = 0, res = initial_result, store = d\<rparr>"
  have tv: "truthy (data_version data)"
    using ok by (auto simp: importFromJson_def initial_result_def split: if_splits)
  have wfs: "wf_db (store ?st)"
    using fold_preserves [where P = "\<lambda>st. wf_db (store st)"] wf
    unfolding import_records_def
    by (intro fold_preserves [where P = "\<lambda>st. wf_db (store st)"])
      (simp_all add: import_book_wf import_series_wf import_row_wf)
  note cl = cleanup_orphans_result [OF wfs]
  have r: "importFromJson gen data d
           = ((res ?st)\<lparr>errors := errors (res ?st)
                 @ cleanup_messages \<lparr>deletedAuthors = map row_name (orphan_authors (store ?st)),
                     deletedPublishers = map row_name (orphan_publishers (store ?st)),
                     deletedSeries = map row_name (orphan_series (store ?st))\<rparr>,
               success := (length (errors (res ?st)
                 @ cleanup_messages \<lparr>deletedAuthors = map row_name (orphan_authors (store ?st)),
                     deletedPublishers = map row_name (orphan_publishers (store ?st)),
                     deletedSeries = map row_name (orphan_series (store ?st))\<rparr>) = 0)\<rparr>,
              swept (store ?st))"
    using tv by (simp add: importFromJson_def cl Let_def)
  have e: "errors (res ?st) = []"
    and o: "orphan_authors (store ?st) = []" "orphan_publishers (store ?st) = []"
      "orphan_series (store ?st) = []"
    using ok unfolding r by (simp_all add: cleanup_messages_empty_iff)
  have sw: "swept (store ?st) = store ?st" using o by (rule swept_id)
  show ?thesis
    unfolding r snd_conv sw using o e by simp
qed

subsection \<open>A cascade that deletes exactly the orphans is the sweep\<close>



subsection \<open>Updating a book\<close>



lemma with_book_tables [simp]:
  "authors (with_book b inp d) = authors d" "publishers (with_book b inp d) = publishers d"
  "series (with_book b inp d) = series d" "genres (with_book b inp d) = genres d"
  "topics (with_book b inp d) = topics d" "categories (with_book b inp d) = categories d"
  "series_authors (with_book b inp d) = series_authors d"
  "book_authors (with_book b inp d)
     = filter (\<lambda>l. fst l \<noteq> b) (book_authors d) @ map (Pair b) (authorIds inp)"
  "book_genres (with_book b inp d)
     = filter (\<lambda>l. fst l \<noteq> b) (book_genres d) @ map (Pair b) (genreIds inp)"
  "book_topics (with_book b inp d)
     = filter (\<lambda>l. fst l \<noteq> b) (book_topics d) @ map (Pair b) (topicIds inp)"
  by (simp_all add: with_book_def)







text \<open>An import that reports success has deleted nothing in its cleanup.\<close>

lemma successful_import_is_guarded:
  assumes wf: "wf_db d" and valid: "isValid (integrityCheck d)"
    and ok: "success (fst (importFromJson gen data d))"
  shows "guarded (ImportBatch gen data) d"
proof -
  let ?e = "after_loops gen data d"
  note s = import_success_store [OF wf ok]
  have v4: "series_no_authors d = []" using valid by (simp add: isValid_iff)
  have k: "series_no_authors ?e = []"
    using import_records_keeps [of "\<lparr>drawn = 0, res = initial_result, store = d\<rparr>" gen data]
      wf v4
    by (simp add: after_loops_def)
  have o: "orphan_authors ?e = []" unfolding after_loops_def using s by metis
  have "sweep_keeps_series_authors ?e"
    using k unfolding sweep_keeps_series_authors_def series_no_authors_empty_iff o
    by simp
  then show ?thesis by simp
qed

subsection \<open>Sequences of guarded calls\<close>







subsection \<open>What one pass of an import loop does\<close>

lemma import_row_cases:
  obtains (skip) "find_row (row_id r) (table (store st)) \<noteq> None"
      "import_row kind table create count gen r st = st"
  | (failed) e where "find_row (row_id r) (table (store st)) = None"
      "create (gen (drawn st)) (Some (row_id r)) (row_name r) (store st) = Inl e"
      "import_row kind table create count gen r st
       = push_error (failed_to_import kind (row_name r) e) (st\<lparr>drawn := Suc (drawn st)\<rparr>)"
  | (created) d' where "find_row (row_id r) (table (store st)) = None"
      "create (gen (drawn st)) (Some (row_id r)) (row_name r) (store st) = Inr d'"
      "import_row kind table create count gen r st
       = st\<lparr>drawn := Suc (drawn st), res := count (res st), store := d'\<rparr>"
proof (cases "find_row (row_id r) (table (store st))")
  case (Some x)
  then show ?thesis by (intro skip) (simp_all add: import_row_def)
next
  case None
  show ?thesis
  proof (cases "create (gen (drawn st)) (Some (row_id r)) (row_name r) (store st)")
    case (Inl e)
    with None show ?thesis by (intro failed [of e]) (simp_all add: import_row_def)
  next
    case (Inr d')
    with None show ?thesis by (intro created [of d']) (simp_all add: import_row_def)
  qed
qed

lemma id_or_uuid_truthy [simp]: "truthy i \<Longrightarrow> id_or_uuid (Some i) u = i"
  by (simp add: id_or_uuid_def)

lemma res_push_error_counts [simp]:
  "booksImported (res (push_error m st)) = booksImported (res st)"
  "authorsImported (res (push_error m st)) = authorsImported (res st)"
  "publishersImported (res (push_error m st)) = publishersImported (res st)"
  "seriesImported (res (push_error m st)) = seriesImported (res st)"
  "genresImported (res (push_error m st)) = genresImported (res st)"
  "topicsImported (res (push_error m st)) = topicsImported (res st)"
  "categoriesImported (res (push_error m st)) = categoriesImported (res st)"
  by (simp_all add: push_error_def)





lemma import_row_effect:
  assumes "\<And>u i n d d'. create u i n d = Inr d' \<Longrightarrow> \<exists>row. d' = add row d"
  shows "import_row kind table create count gen r st = st
   \<or> (\<exists>m. import_row kind table create count gen r st
          = push_error m (st\<lparr>drawn := Suc (drawn st)\<rparr>))
   \<or> (\<exists>row. import_row kind table create count gen r st
          = st\<lparr>drawn := Suc (drawn st), res := count (res st),
               store := add row (store st)\<rparr>)"
proof (cases rule: import_row_cases [where r = r and st = st and table = table
      and create = create and gen = gen and kind = kind and count = count])
  case skip
  then show ?thesis by simp
next
  case (failed e)
  then show ?thesis by blast
next
  case (created d')
  from assms [OF created(2)] obtain row where "d' = add row (store st)" by blast
  with created(3) show ?thesis by blast
qed

lemma import_category_effect:
  "import_category gen r st = st
   \<or> (\<exists>m. import_category gen r st = push_error m (st\<lparr>drawn := Suc (drawn st)\<rparr>))
   \<or> (\<exists>row. import_category gen r st
          = st\<lparr>drawn := Suc (drawn st),
               res := (res st)\<lparr>categoriesImported := categoriesImported (res st) + 1\<rparr>,
               store := (store st)\<lparr>categories := categories (store st) @ [row]\<rparr>\<rparr>)"
  unfolding import_category_def
  by (rule import_row_effect [where add = "\<lambda>row d. d\<lparr>categories := categories d @ [row]\<rparr>"])
    (auto simp: create_category_def sql_insert_category_Inr_iff)

lemma import_category_frame [simp]:
  "books (store (import_category gen r st)) = books (store st)"
  "authors (store (import_category gen r st)) = authors (store st)"
  "publishers (store (import_category gen r st)) = publishers (store st)"
  "series (store (import_category gen r st)) = series (store st)"
  "genres (store (import_category gen r st)) = genres (store st)"
  "topics (store (import_category gen r st)) = topics (store st)"
  "book_authors (store (import_category gen r st)) = book_authors (store st)"
  "book_genres (store (import_category gen r st)) = book_genres (store st)"
  "book_topics (store (import_category gen r st)) = book_topics (store st)"
  "series_authors (store (import_category gen r st)) = series_authors (store st)"
  using import_category_effect [of gen r st] by (auto simp: push_error_def)



lemma import_author_effect:
  "import_author gen r st = st
   \<or> (\<exists>m. import_author gen r st = push_error m (st\<lparr>drawn := Suc (drawn st)\<rparr>))
   \<or> (\<exists>row. import_author gen r st
          = st\<lparr>drawn := Suc (drawn st),
               res := (res st)\<lparr>authorsImported := authorsImported (res st) + 1\<rparr>,
               store := (store st)\<lparr>authors := authors (store st) @ [row]\<rparr>\<rparr>)"
  unfolding import_author_def
  by (rule import_row_effect [where add = "\<lambda>row d. d\<lparr>authors := authors d @ [row]\<rparr>"])
    (auto simp: create_author_def sql_insert_author_Inr_iff)

lemma import_author_frame [simp]:
  "books (store (import_author gen r st)) = books (store st)"
  "publishers (store (import_author gen r st)) = publishers (store st)"
  "series (store (import_author gen r st)) = series (store st)"
  "genres (store (import_author gen r st)) = genres (store st)"
  "topics (store (import_author gen r st)) = topics (store st)"
  "categories (store (import_author gen r st)) = categories (store st)"
  "book_authors (store (import_author gen r st)) = book_authors (store st)"
  "book_genres (store (import_author gen r st)) = book_genres (store st)"
  "book_topics (store (import_author gen r st)) = book_topics (store st)"
  "series_authors (store (import_author gen r st)) = series_authors (store st)"
  using import_author_effect [of gen r st] by (auto simp: push_error_def)



lemma import_publisher_effect:
  "import_publisher gen r st = st
   \<or> (\<exists>m. import_publisher gen r st = push_error m (st\<lparr>drawn := Suc (drawn st)\<rparr>))
   \<or> (\<exists>row. import_publisher gen r st
          = st\<lparr>drawn := Suc (drawn st),
               res := (res st)\<lparr>publishersImported := publishersImported (res st) + 1\<rparr>,
               store := (store st)\<lparr>publishers := publishers (store st) @ [row]\<rparr>\<rparr>)"
  unfolding import_publisher_def
  by (rule import_row_effect [where add = "\<lambda>row d. d\<lparr>publishers := publishers d @ [row]\<rparr>"])
    (auto simp: create_publisher_def sql_insert_publisher_Inr_iff)

lemma import_publisher_frame [simp]:
  "books (store (import_publisher gen r st)) = books (store st)"
  "authors (store (import_publisher gen r st)) = authors (store st)"
  "series (store (import_publisher gen r st)) = series (store st)"
  "genres (store (import_publisher gen r st)) = genres (store st)"
  "topics (store (import_publisher gen r st)) = topics (store st)"
  "categories (store (import_publisher gen r st)) = categories (store st)"
  "book_authors (store (import_publisher gen r st)) = book_authors (store st)"
  "book_genres (store (import_publisher gen r st)) = book_genres (store st)"
  "book_topics (store (import_publisher gen r st)) = book_topics (store st)"
  "series_authors (store (import_publisher gen r st)) = series_authors (store st)"
  using import_publisher_effect [of gen r st] by (auto simp: push_error_def)



lemma import_genre_effect:
  "import_genre gen r st = st
   \<or> (\<exists>m. import_genre gen r st = push_error m (st\<lparr>drawn := Suc (drawn st)\<rparr>))
   \<or> (\<exists>row. import_genre gen r st
          = st\<lparr>drawn := Suc (drawn st),
               res := (res st)\<lparr>genresImported := genresImported (res st) + 1\<rparr>,
               store := (store st)\<lparr>genres := genres (store st) @ [row]\<rparr>\<rparr>)"
  unfolding import_genre_def
  by (rule import_row_effect [where add = "\<lambda>row d. d\<lparr>genres := genres d @ [row]\<rparr>"])
    (auto simp: create_genre_def sql_insert_genre_Inr_iff)

lemma import_genre_frame [simp]:
  "books (store (import_genre gen r st)) = books (store st)"
  "authors (store (import_genre gen r st)) = authors (store st)"
  "publishers (store (import_genre gen r st)) = publishers (store st)"
  "series (store (import_genre gen r st)) = series (store st)"
  "topics (store (import_genre gen r st)) = topics (store st)"
  "categories (store (import_genre gen r st)) = categories (store st)"
  "book_authors (store (import_genre gen r st)) = book_authors (store st)"
  "book_genres (store (import_genre gen r st)) = book_genres (store st)"
  "book_topics (store (import_genre gen r st)) = book_topics (store st)"
  "series_authors (store (import_genre gen r st)) = series_authors (store st)"
  using import_genre_effect [of gen r st] by (auto simp: push_error_def)



lemma import_topic_effect:
  "import_topic gen r st = st
   \<or> (\<exists>m. import_topic gen r st = push_error m (st\<lparr>drawn := Suc (drawn st)\<rparr>))
   \<or> (\<exists>row. import_topic gen r st
          = st\<lparr>drawn := Suc (drawn st),
               res := (res st)\<lparr>topicsImported := topicsImported (res st) + 1\<rparr>,
               store := (store st)\<lparr>topics := topics (store st) @ [row]\<rparr>\<rparr>)"
  unfolding import_topic_def
  by (rule import_row_effect [where add = "\<lambda>row d. d\<lparr>topics := topics d @ [row]\<rparr>"])
    (auto simp: create_topic_def sql_insert_topic_Inr_iff)

lemma import_topic_frame [simp]:
  "books (store (import_topic gen r st)) = books (store st)"
  "authors (store (import_topic gen r st)) = authors (store st)"
  "publishers (store (import_topic gen r st)) = publishers (store st)"
  "series (store (import_topic gen r st)) = series (store st)"
  "genres (store (import_topic gen r st)) = genres (store st)"
  "categories (store (import_topic gen r st)) = categories (store st)"
  "book_authors (store (import_topic gen r st)) = book_authors (store st)"
  "book_genres (store (import_topic gen r st)) = book_genres (store st)"
  "book_topics (store (import_topic gen r st)) = book_topics (store st)"
  "series_authors (store (import_topic gen r st)) = series_authors (store st)"
  using import_topic_effect [of gen r st] by (auto simp: push_error_def)



lemma create_series_effect:
  "(\<exists>e. create_series u i n as d = (Inl e, d))
   \<or> (\<exists>row links. create_series u i n as d
         = (Inr (), d\<lparr>series := series d @ [row],
                       series_authors := series_authors d @ links\<rparr>))"
proof (cases rule: transaction_cases [where body = "create_series_body u i n as" and d = d])
  case (ok v d')
  from ok(2) have "\<exists>row links. d' = d\<lparr>series := series d @ [row],
                       series_authors := series_authors d @ links\<rparr>"
    by (auto simp: create_series_body_def Let_def bind_e_Inr_iff sql_insert_series_Inr_iff
        for_each_series_authors_iff)
  with ok(1) show ?thesis by (auto simp: create_series_def)
next
  case (failed e)
  then show ?thesis by (auto simp: create_series_def)
qed

lemma create_book_effect:
  "(\<exists>e. create_book u input d = (Inl e, d))
   \<or> (\<exists>row la lg lt. create_book u input d
         = (Inr (), d\<lparr>books := books d @ [row], book_authors := book_authors d @ la,
                       book_genres := book_genres d @ lg,
                       book_topics := book_topics d @ lt\<rparr>))"
proof (cases rule: transaction_cases [where body = "create_book_body u input" and d = d])
  case (ok v d')
  from ok(2) have "\<exists>row la lg lt. d' = d\<lparr>books := books d @ [row],
      book_authors := book_authors d @ la, book_genres := book_genres d @ lg,
      book_topics := book_topics d @ lt\<rparr>"
    by (auto simp: create_book_body_def Let_def bind_e_Inr_iff sql_insert_book_Inr_iff
        for_each_book_authors_iff for_each_book_genres_iff for_each_book_topics_iff)
  with ok(1) show ?thesis by (auto simp: create_book_def)
next
  case (failed e)
  then show ?thesis by (auto simp: create_book_def)
qed

lemma import_series_effect:
  "import_series gen s st = st
   \<or> (\<exists>m. import_series gen s st = push_error m (st\<lparr>drawn := Suc (drawn st)\<rparr>))
   \<or> (\<exists>row links. import_series gen s st
          = st\<lparr>drawn := Suc (drawn st),
               res := (res st)\<lparr>seriesImported := seriesImported (res st) + 1\<rparr>,
               store := (store st)\<lparr>series := series (store st) @ [row],
                          series_authors := series_authors (store st) @ links\<rparr>\<rparr>)"
proof (cases "find_row (rec_id s) (series (store st)) = None \<and> rec_authors s \<noteq> []")
  case False
  then show ?thesis by (auto simp: import_series_def Let_def split: option.splits)
next
  case True
  from create_series_effect [of "gen (drawn st)" "Some (rec_id s)" "rec_name s"
      "map row_id (rec_authors s)" "store st"]
  show ?thesis
  proof (elim disjE exE)
    fix e
    assume "create_series (gen (drawn st)) (Some (rec_id s)) (rec_name s)
              (map row_id (rec_authors s)) (store st) = (Inl e, store st)"
    with True have "import_series gen s st
        = push_error (failed_to_import ''series'' (rec_name s) e)
            (st\<lparr>drawn := Suc (drawn st)\<rparr>)"
      by (simp add: import_series_def)
    then show ?thesis by blast
  next
    fix row links
    assume "create_series (gen (drawn st)) (Some (rec_id s)) (rec_name s)
              (map row_id (rec_authors s)) (store st)
            = (Inr (), (store st)\<lparr>series := series (store st) @ [row],
                          series_authors := series_authors (store st) @ links\<rparr>)"
    with True have "import_series gen s st
          = st\<lparr>drawn := Suc (drawn st),
               res := (res st)\<lparr>seriesImported := seriesImported (res st) + 1\<rparr>,
               store := (store st)\<lparr>series := series (store st) @ [row],
                          series_authors := series_authors (store st) @ links\<rparr>\<rparr>"
      by (simp add: import_series_def)
    then show ?thesis by blast
  qed
qed

lemma import_book_effect:
  "import_book gen b st = st
   \<or> (\<exists>m. import_book gen b st = push_error m (st\<lparr>drawn := Suc (drawn st)\<rparr>))
   \<or> (\<exists>row la lg lt. import_book gen b st
          = st\<lparr>drawn := Suc (drawn st),
               res := (res st)\<lparr>booksImported := booksImported (res st) + 1\<rparr>,
               store := (store st)\<lparr>books := books (store st) @ [row],
                          book_authors := book_authors (store st) @ la,
                          book_genres := book_genres (store st) @ lg,
                          book_topics := book_topics (store st) @ lt\<rparr>\<rparr>)"
proof (cases "find_book (exp_id b) (store st)")
  case (Some x)
  then show ?thesis by (simp add: import_book_def)
next
  case None
  from create_book_effect [of "gen (drawn st)" "book_input_of b" "store st"]
  show ?thesis
  proof (elim disjE exE)
    fix e
    assume "create_book (gen (drawn st)) (book_input_of b) (store st) = (Inl e, store st)"
    with None have "import_book gen b st
        = push_error (failed_to_import ''book'' (exp_title b) e)
            (st\<lparr>drawn := Suc (drawn st)\<rparr>)"
      by (simp add: import_book_def)
    then show ?thesis by blast
  next
    fix row la lg lt
    assume "create_book (gen (drawn st)) (book_input_of b) (store st)
         = (Inr (), (store st)\<lparr>books := books (store st) @ [row],
                          book_authors := book_authors (store st) @ la,
                          book_genres := book_genres (store st) @ lg,
                          book_topics := book_topics (store st) @ lt\<rparr>)"
    with None have "import_book gen b st
          = st\<lparr>drawn := Suc (drawn st),
               res := (res st)\<lparr>booksImported := booksImported (res st) + 1\<rparr>,
               store := (store st)\<lparr>books := books (store st) @ [row],
                          book_authors := book_authors (store st) @ la,
                          book_genres := book_genres (store st) @ lg,
                          book_topics := book_topics (store st) @ lt\<rparr>\<rparr>"
      by (simp add: import_book_def)
    then show ?thesis by blast
  qed
qed

lemma import_series_frame [simp]:
  "books (store (import_series gen r st)) = books (store st)"
  "authors (store (import_series gen r st)) = authors (store st)"
  "publishers (store (import_series gen r st)) = publishers (store st)"
  "genres (store (import_series gen r st)) = genres (store st)"
  "topics (store (import_series gen r st)) = topics (store st)"
  "categories (store (import_series gen r st)) = categories (store st)"
  "book_authors (store (import_series gen r st)) = book_authors (store st)"
  "book_genres (store (import_series gen r st)) = book_genres (store st)"
  "book_topics (store (import_series gen r st)) = book_topics (store st)"
  using import_series_effect [of gen r st] by (auto simp: push_error_def)



lemma import_book_frame [simp]:
  "authors (store (import_book gen r st)) = authors (store st)"
  "publishers (store (import_book gen r st)) = publishers (store st)"
  "series (store (import_book gen r st)) = series (store st)"
  "genres (store (import_book gen r st)) = genres (store st)"
  "topics (store (import_book gen r st)) = topics (store st)"
  "categories (store (import_book gen r st)) = categories (store st)"
  "series_authors (store (import_book gen r st)) = series_authors (store st)"
  using import_book_effect [of gen r st] by (auto simp: push_error_def)



subsection \<open>What a whole loop does\<close>

lemma fold_import_category_frame [simp]:
  "books (store (fold (import_category gen) xs st)) = books (store st)"
  "authors (store (fold (import_category gen) xs st)) = authors (store st)"
  "publishers (store (fold (import_category gen) xs st)) = publishers (store st)"
  "series (store (fold (import_category gen) xs st)) = series (store st)"
  "genres (store (fold (import_category gen) xs st)) = genres (store st)"
  "topics (store (fold (import_category gen) xs st)) = topics (store st)"
  "book_authors (store (fold (import_category gen) xs st)) = book_authors (store st)"
  "book_genres (store (fold (import_category gen) xs st)) = book_genres (store st)"
  "book_topics (store (fold (import_category gen) xs st)) = book_topics (store st)"
  "series_authors (store (fold (import_category gen) xs st)) = series_authors (store st)"
  by (induction xs arbitrary: st) simp_all

lemma fold_import_author_frame [simp]:
  "books (store (fold (import_author gen) xs st)) = books (store st)"
  "publishers (store (fold (import_author gen) xs st)) = publishers (store st)"
  "series (store (fold (import_author gen) xs st)) = series (store st)"
  "genres (store (fold (import_author gen) xs st)) = genres (store st)"
  "topics (store (fold (import_author gen) xs st)) = topics (store st)"
  "categories (store (fold (import_author gen) xs st)) = categories (store st)"
  "book_authors (store (fold (import_author gen) xs st)) = book_authors (store st)"
  "book_genres (store (fold (import_author gen) xs st)) = book_genres (store st)"
  "book_topics (store (fold (import_author gen) xs st)) = book_topics (store st)"
  "series_authors (store (fold (import_author gen) xs st)) = series_authors (store st)"
  by (induction xs arbitrary: st) simp_all

lemma fold_import_publisher_frame [simp]:
  "books (store (fold (import_publisher gen) xs st)) = books (store st)"
  "authors (store (fold (import_publisher gen) xs st)) = authors (store st)"
  "series (store (fold (import_publisher gen) xs st)) = series (store st)"
  "genres (store (fold (import_publisher gen) xs st)) = genres (store st)"
  "topics (store (fold (import_publisher gen) xs st)) = topics (store st)"
  "categories (store (fold (import_publisher gen) xs st)) = categories (store st)"
  "book_authors (store (fold (import_publisher gen) xs st)) = book_authors (store st)"
  "book_genres (store (fold (import_publisher gen) xs st)) = book_genres (store st)"
  "book_topics (store (fold (import_publisher gen) xs st)) = book_topics (store st)"
  "series_authors (store (fold (import_publisher gen) xs st)) = series_authors (store st)"
  by (induction xs arbitrary: st) simp_all

lemma fold_import_genre_frame [simp]:
  "books (store (fold (import_genre gen) xs st)) = books (store st)"
  "authors (store (fold (import_genre gen) xs st)) = authors (store st)"
  "publishers (store (fold (import_genre gen) xs st)) = publishers (store st)"
  "series (store (fold (import_genre gen) xs st)) = series (store st)"
  "topics (store (fold (import_genre gen) xs st)) = topics (store st)"
  "categories (store (fold (import_genre gen) xs st)) = categories (store st)"
  "book_authors (store (fold (import_genre gen) xs st)) = book_authors (store st)"
  "book_genres (store (fold (import_genre gen) xs st)) = book_genres (store st)"
  "book_topics (store (fold (import_genre gen) xs st)) = book_topics (store st)"
  "series_authors (store (fold (import_genre gen) xs st)) = series_authors (store st)"
  by (induction xs arbitrary: st) simp_all

lemma fold_import_topic_frame [simp]:
  "books (store (fold (import_topic gen) xs st)) = books (store st)"
  "authors (store (fold (import_topic gen) xs st)) = authors (store st)"
  "publishers (store (fold (import_topic gen) xs st)) = publishers (store st)"
  "series (store (fold (import_topic gen) xs st)) = series (store st)"
  "genres (store (fold (import_topic gen) xs st)) = genres (store st)"
  "categories (store (fold (import_topic gen) xs st)) = categories (store st)"
  "book_authors (store (fold (import_topic gen) xs st)) = book_authors (store st)"
  "book_genres (store (fold (import_topic gen) xs st)) = book_genres (store st)"
  "book_topics (store (fold (import_topic gen) xs st)) = book_topics (store st)"
  "series_authors (store (fold (import_topic gen) xs st)) = series_authors (store st)"
  by (induction xs arbitrary: st) simp_all

lemma fold_import_series_frame [simp]:
  "books (store (fold (import_series gen) xs st)) = books (store st)"
  "authors (store (fold (import_series gen) xs st)) = authors (store st)"
  "publishers (store (fold (import_series gen) xs st)) = publishers (store st)"
  "genres (store (fold (import_series gen) xs st)) = genres (store st)"
  "topics (store (fold (import_series gen) xs st)) = topics (store st)"
  "categories (store (fold (import_series gen) xs st)) = categories (store st)"
  "book_authors (store (fold (import_series gen) xs st)) = book_authors (store st)"
  "book_genres (store (fold (import_series gen) xs st)) = book_genres (store st)"
  "book_topics (store (fold (import_series gen) xs st)) = book_topics (store st)"
  by (induction xs arbitrary: st) simp_all

lemma fold_import_book_frame [simp]:
  "authors (store (fold (import_book gen) xs st)) = authors (store st)"
  "publishers (store (fold (import_book gen) xs st)) = publishers (store st)"
  "series (store (fold (import_book gen) xs st)) = series (store st)"
  "genres (store (fold (import_book gen) xs st)) = genres (store st)"
  "topics (store (fold (import_book gen) xs st)) = topics (store st)"
  "categories (store (fold (import_book gen) xs st)) = categories (store st)"
  "series_authors (store (fold (import_book gen) xs st)) = series_authors (store st)"
  by (induction xs arbitrary: st) simp_all

lemma fold_import_wf [simp]:
  "wf_db (store st) \<Longrightarrow> wf_db (store (fold (import_category gen) rs st))"
  "wf_db (store st) \<Longrightarrow> wf_db (store (fold (import_author gen) rs st))"
  "wf_db (store st) \<Longrightarrow> wf_db (store (fold (import_publisher gen) rs st))"
  "wf_db (store st) \<Longrightarrow> wf_db (store (fold (import_genre gen) rs st))"
  "wf_db (store st) \<Longrightarrow> wf_db (store (fold (import_topic gen) rs st))"
  "wf_db (store st) \<Longrightarrow> wf_db (store (fold (import_series gen) ss st))"
  "wf_db (store st) \<Longrightarrow> wf_db (store (fold (import_book gen) bs st))"
  by (induction rs arbitrary: st, simp_all add: import_row_wf)
     (induction ss arbitrary: st, simp_all add: import_series_wf,
      induction bs arbitrary: st, simp_all add: import_book_wf)





subsection \<open>The exact store after one pass\<close>









subsection \<open>What the loops have settled when they are through\<close>











subsection \<open>A second run of the loops on the swept store\<close>












subsection \<open>The sweep after a second run\<close>





subsection \<open>Importing a file twice\<close>






end
